theory Spec2Isabelle
  imports Main
begin

section \<open>Exceptions\<close>

text \<open>
  The exception classes that the chat application raises or catches.  \<open>RateLimitError\<close> and
  \<open>AuthenticationError\<close> are the two subclasses of the OpenAI client's \<open>APIError\<close> that
  \<open>services.py\<close> names; \<open>APIError\<close> stands for every other instance of that class, and
  \<open>OtherException\<close> for an exception of any class the code does not name.
\<close>

datatype exn =
    ValueError string
  | IndexError
  | Http404
  | MultipleObjectsReturned
  | RateLimitError
  | AuthenticationError
  | APIError
  | OtherException

section \<open>The completion gateway (chat/services.py)\<close>

text \<open>
  A message in OpenAI format is the dictionary \<open>{"role": r, "content": c}\<close>, modelled as the
  pair \<open>(r, c)\<close>.
\<close>

type_synonym openai_message = "string \<times> string"

record moderation =
  flagged :: bool
  categories :: "(string \<times> bool) list"

text \<open>
  The two external collaborators.  A call of \<open>client.moderations.create(input=text)\<close>
  either raises or returns the list \<open>response.results\<close>, each result with its \<open>flagged\<close>
  bit and its category dump; the first argument numbers the calls made during one request, so
  that two calls on the same text may answer differently.  A call of
  \<open>client.chat.completions.create(...)\<close> either raises or returns the list
  \<open>response.choices\<close>, each choice given by its \<open>message.content\<close>, which the client
  library types as an optional string.
\<close>

type_synonym moderations_create = "nat \<Rightarrow> string \<Rightarrow> exn + (bool \<times> (string \<times> bool) list) list"
type_synonym completions_create = "openai_message list \<Rightarrow> exn + string option list"

text \<open>Indexing \<open>xs[0]\<close> raises \<open>IndexError\<close> on the empty list.\<close>

definition index0 :: "'a list \<Rightarrow> exn + 'a" where
  "index0 xs = (case xs of [] \<Rightarrow> Inl IndexError | x # _ \<Rightarrow> Inr x)"

definition check_moderation :: "moderations_create \<Rightarrow> nat \<Rightarrow> string \<Rightarrow> exn + moderation" where
  "check_moderation create n text =
     (case (case create n text of
              Inl e \<Rightarrow> Inl e
            | Inr results \<Rightarrow>
                (case index0 results of
                   Inl e \<Rightarrow> Inl e
                 | Inr r \<Rightarrow> Inr \<lparr>flagged = fst r, categories = (if fst r then snd r else [])\<rparr>)) of
        Inr v \<Rightarrow> Inr v
      | Inl e \<Rightarrow> Inr \<lparr>flagged = False, categories = []\<rparr>)"

text \<open>The fixed answers, character for character (the first one is written in two parts).\<close>

definition policy_message :: string where
  "policy_message = ''I'm so'' @ ''rry, but I can't respond to that message as it violates our usage policies. Please rephrase your message.''"

definition high_demand_message :: string where
  "high_demand_message = ''I'm currently experiencing high demand. Please try again in a moment.''"

definition misconfigured_message :: string where
  "misconfigured_message = ''There's an issue with the AI service configuration. Please contact support.''"

definition technical_difficulties_message :: string where
  "technical_difficulties_message = ''I'm experiencing technical difficulties. Please try again later.''"

definition unexpected_error_message :: string where
  "unexpected_error_message = ''An unexpected error occurred. Please try again.''"

text \<open>
  The moderation loop of \<open>generate_chat_completion\<close>: \<open>Inr (Some s)\<close> is the early
  \<open>return s\<close> on a flagged user message, \<open>Inr None\<close> is the loop running to its end; \<open>n\<close>
  counts the moderation calls made so far.
\<close>

fun moderation_loop :: "moderations_create \<Rightarrow> nat \<Rightarrow> openai_message list \<Rightarrow> exn + string option" where
  "moderation_loop create n [] = Inr None"
| "moderation_loop create n (message # rest) =
     (if fst message = ''user'' then
        (case check_moderation create n (snd message) of
           Inl e \<Rightarrow> Inl e
         | Inr m \<Rightarrow> if flagged m then Inr (Some policy_message)
                    else moderation_loop create (Suc n) rest)
      else moderation_loop create n rest)"

text \<open>The API call and the read of \<open>response.choices[0].message.content\<close>.\<close>

definition api_call :: "completions_create \<Rightarrow> openai_message list \<Rightarrow> exn + string option" where
  "api_call complete msgs =
     (case complete msgs of
        Inl e \<Rightarrow> Inl e
      | Inr choices \<Rightarrow> index0 choices)"

text \<open>The \<open>except\<close> clauses, in the order of the source.\<close>

fun except_clauses :: "exn \<Rightarrow> string" where
  "except_clauses RateLimitError = high_demand_message"
| "except_clauses AuthenticationError = misconfigured_message"
| "except_clauses APIError = technical_difficulties_message"
| "except_clauses e = unexpected_error_message"

definition generate_chat_completion ::
  "moderations_create \<Rightarrow> completions_create \<Rightarrow> openai_message list \<Rightarrow> exn + string option" where
  "generate_chat_completion create complete msgs =
     (case (case moderation_loop create 0 msgs of
              Inl e \<Rightarrow> Inl e
            | Inr (Some early) \<Rightarrow> Inr (Some early)
            | Inr None \<Rightarrow> api_call complete msgs) of
        Inr v \<Rightarrow> Inr v
      | Inl e \<Rightarrow> Inr (Some (except_clauses e)))"

definition estimate_tokens :: "string \<Rightarrow> int" where
  "estimate_tokens text = int (length text) div 4"

text \<open>
  The loop of \<open>trim_messages_by_token_limit\<close> over \<open>reversed(messages)\<close>, with its two
  variables \<open>total_tokens\<close> and \<open>trimmed_messages\<close>; \<open>insert(0, message)\<close> is the cons, and
  \<open>break\<close> returns what has been collected.
\<close>

fun trim_loop :: "int \<Rightarrow> openai_message list \<Rightarrow> int \<Rightarrow> openai_message list \<Rightarrow> openai_message list" where
  "trim_loop max_tokens [] total_tokens trimmed_messages = trimmed_messages"
| "trim_loop max_tokens (message # rest) total_tokens trimmed_messages =
     (let message_tokens = estimate_tokens (snd message) in
      if total_tokens + message_tokens \<le> max_tokens
      then trim_loop max_tokens rest (total_tokens + message_tokens) (message # trimmed_messages)
      else trimmed_messages)"

definition trim_messages_by_token_limit :: "openai_message list \<Rightarrow> int \<Rightarrow> openai_message list" where
  "trim_messages_by_token_limit msgs max_tokens = trim_loop max_tokens (rev msgs) 0 []"

text \<open>The size of a sequence of entries, in the units of \<open>estimate_tokens\<close>.\<close>

definition total_size :: "openai_message list \<Rightarrow> int" where
  "total_size msgs = sum_list (map (\<lambda>m. estimate_tokens (snd m)) msgs)"

section \<open>The message store and the conversation aggregate (chat/models.py)\<close>

text \<open>
  A \<open>DateTimeField\<close> value is a point of a linearly ordered time line, here a natural
  number.  A foreign key is the primary key of the row it refers to.
\<close>

type_synonym datetime = nat

record Conversation =
  conversation_pk :: nat
  user :: nat
  title :: string
  conversation_created_at :: datetime
  updated_at :: datetime

record Message =
  pk :: nat
  conversation :: nat
  role :: string
  content :: string
  created_at :: datetime
  edited :: bool
  edited_at :: "datetime option"
  previous_content :: string
  superseded :: bool
  replaced_by :: "nat option"
  parent_user_message :: "nat option"

definition ROLE_CHOICES :: "string list" where
  "ROLE_CHOICES = [''user'', ''assistant'', ''system'']"

text \<open>
  The state a request runs in: the two tables, each as the list of its rows in the order of
  their insertion, and the clock.  \<open>clock w k\<close> is what the \<open>k\<close>-th read of
  \<open>timezone.now()\<close> returns and \<open>ticks\<close> counts the reads made so far, so that nothing is
  assumed about how time advances between two reads.
\<close>

record world =
  conversations :: "Conversation list"
  messages :: "Message list"
  clock :: "nat \<Rightarrow> datetime"
  ticks :: nat

definition timezone_now :: "world \<Rightarrow> datetime \<times> world" where
  "timezone_now w = (clock w (ticks w), w\<lparr>ticks := Suc (ticks w)\<rparr>)"

text \<open>
  What \<open>save()\<close> of an instance does to its table: \<open>UPDATE\<close> the row with the key of
  the instance, and \<open>INSERT\<close> the instance when no row has it.
\<close>

definition save_row :: "('a \<Rightarrow> nat) \<Rightarrow> 'a \<Rightarrow> 'a list \<Rightarrow> 'a list" where
  "save_row key r rows =
     (if key r \<in> set (map key rows)
      then map (\<lambda>x. if key x = key r then r else x) rows
      else rows @ [r])"

text \<open>
  \<open>Model.save()\<close> first attempts the \<open>UPDATE\<close>, for which every \<open>auto_now\<close> field is
  stamped; when no row has the key it falls back to the \<open>INSERT\<close>, for which the
  \<open>auto_now_add\<close> and \<open>auto_now\<close> fields are stamped, in the order of the fields.  The stamps
  are set on the instance as well.  \<open>Conversation\<close> has \<open>created_at\<close> (\<open>auto_now_add\<close>) and
  \<open>updated_at\<close> (\<open>auto_now\<close>); \<open>Message\<close> has \<open>created_at\<close> (\<open>auto_now_add\<close>).
\<close>

definition Conversation_save :: "world \<Rightarrow> Conversation \<Rightarrow> Conversation \<times> world" where
  "Conversation_save w self =
     (let (now, w1) = timezone_now w;
          self1 = self\<lparr>updated_at := now\<rparr>
      in if conversation_pk self1 \<in> set (map conversation_pk (conversations w1))
         then (self1, w1\<lparr>conversations := save_row conversation_pk self1 (conversations w1)\<rparr>)
         else
           (let (now2, w2) = timezone_now w1;
                self2 = self1\<lparr>conversation_created_at := now2\<rparr>;
                (now3, w3) = timezone_now w2;
                self3 = self2\<lparr>updated_at := now3\<rparr>
            in (self3, w3\<lparr>conversations := save_row conversation_pk self3 (conversations w3)\<rparr>)))"

definition Message_save :: "world \<Rightarrow> Message \<Rightarrow> Message \<times> world" where
  "Message_save w self =
     (if pk self \<in> set (map pk (messages w))
      then (self, w\<lparr>messages := save_row pk self (messages w)\<rparr>)
      else
        (let (now, w1) = timezone_now w;
             self1 = self\<lparr>created_at := now\<rparr>
         in (self1, w1\<lparr>messages := save_row pk self1 (messages w1)\<rparr>)))"

text \<open>The key an \<open>AutoField\<close> gives a new row: one that no row of the table has.\<close>

definition fresh_pk :: "Message list \<Rightarrow> nat" where
  "fresh_pk rows = Suc (foldr max (map pk rows) 0)"

text \<open>
  \<open>Message.objects.create(conversation=..., role=..., content=..., parent_user_message=...)\<close>,
  the form of every call in \<open>views.py\<close>: the other fields take their declared defaults and
  \<open>created_at\<close> is an \<open>auto_now_add\<close> field.  \<open>create\<close> saves without running the model's
  validators (\<open>full_clean\<close> is called nowhere in the application), so it raises nothing for
  any role or content.  The two foreign keys are taken to refer to rows of their tables, as they
  do at every call in \<open>views.py\<close>; the database refuses an insert whose foreign key refers to
  no row, and that refusal is not modelled.
\<close>

definition Message_objects_create ::
  "world \<Rightarrow> nat \<Rightarrow> string \<Rightarrow> string \<Rightarrow> nat option \<Rightarrow> Message \<times> world" where
  "Message_objects_create w conv r c parent =
     (let (now, w1) = timezone_now w;
          m = \<lparr>pk = fresh_pk (messages w1), conversation = conv, role = r, content = c,
               created_at = now, edited = False, edited_at = None, previous_content = [],
               superseded = False, replaced_by = None, parent_user_message = parent\<rparr>
      in (m, w1\<lparr>messages := messages w1 @ [m]\<rparr>))"

text \<open>
  \<open>order_by('created_at')\<close>, also the default ordering of \<open>Message\<close>: rows with equal
  stamps are kept in the order of the table.
\<close>

definition order_by_created_at :: "Message list \<Rightarrow> Message list" where
  "order_by_created_at rows = sort_key created_at rows"

text \<open>\<open>QuerySet.first()\<close>: the first row, or \<open>None\<close>.\<close>

definition first :: "'a list \<Rightarrow> 'a option" where
  "first rows = (case rows of [] \<Rightarrow> None | x # _ \<Rightarrow> Some x)"

text \<open>
  The methods of \<open>Conversation\<close> that only query take the conversation by its primary key,
  the one attribute of \<open>self\<close> that the query uses.
\<close>

definition get_active_messages :: "world \<Rightarrow> nat \<Rightarrow> Message list" where
  "get_active_messages w self_pk =
     order_by_created_at (filter (\<lambda>m. conversation m = self_pk \<and> \<not> superseded m) (messages w))"

definition get_recent_messages_for_api :: "world \<Rightarrow> nat \<Rightarrow> int \<Rightarrow> Message list" where
  "get_recent_messages_for_api w self_pk limit =
     (let msgs = get_active_messages w self_pk in
      if int (length msgs) > limit
      then drop (nat (int (length msgs) - limit)) msgs
      else msgs)"

definition update_title_from_first_message :: "world \<Rightarrow> Conversation \<Rightarrow> Conversation \<times> world" where
  "update_title_from_first_message w self =
     (case first (order_by_created_at
                    (filter (\<lambda>m. conversation m = conversation_pk self \<and> role m = ''user'' \<and> \<not> superseded m)
                       (messages w))) of
        None \<Rightarrow> (self, w)
      | Some first_message \<Rightarrow>
          if title self = ''New Conversation'' then
            (let t = take 50 (content first_message);
                 t' = (if length (content first_message) > 50 then t @ ''...'' else t)
             in Conversation_save w (self\<lparr>title := t'\<rparr>))
          else (self, w))"

text \<open>
  The methods of \<open>Message\<close> that mutate return the exception raised (if any), the instance
  \<open>self\<close> and the state as they are when the call ends, by return or by raise.

  In \<open>edit_content\<close>, \<open>self.conversation\<close> is the row that the foreign key refers to, which
  the foreign key constraint keeps in the table; its \<open>updated_at\<close> is assigned one reading of
  the clock, and the \<open>save()\<close> that follows, an \<open>UPDATE\<close> of that row, stamps the field again.
  The conversation is read from the table at that moment: an instance of \<open>Message\<close> carries
  no cached copy of its conversation here, so the other fields of the row are written back as
  they are.
\<close>

definition edit_content :: "world \<Rightarrow> Message \<Rightarrow> string \<Rightarrow> exn option \<times> Message \<times> world" where
  "edit_content w self new_content =
     (if role self \<noteq> ''user'' then (Some (ValueError ''Only user messages can be edited''), self, w)
      else
        (let self1 = self\<lparr>previous_content := content self\<rparr>;
             self2 = self1\<lparr>content := new_content\<rparr>;
             self3 = self2\<lparr>edited := True\<rparr>;
             (now, w1) = timezone_now w;
             self4 = self3\<lparr>edited_at := Some now\<rparr>;
             (self5, w2) = Message_save w1 self4;
             (now2, w3) = timezone_now w2;
             (now3, w4) = timezone_now w3;
             w5 = w4\<lparr>conversations :=
                      map (\<lambda>c. if conversation_pk c = conversation self5
                                then (c\<lparr>updated_at := now2\<rparr>)\<lparr>updated_at := now3\<rparr> else c)
                        (conversations w4)\<rparr>
         in (None, self5, w5)))"

definition supersede_with_new_reply :: "world \<Rightarrow> Message \<Rightarrow> Message \<Rightarrow> exn option \<times> Message \<times> world" where
  "supersede_with_new_reply w self new_reply =
     (if role self \<noteq> ''assistant'' then (Some (ValueError ''Only assistant messages can be superseded''), self, w)
      else
        (let self1 = self\<lparr>superseded := True\<rparr>;
             self2 = self1\<lparr>replaced_by := Some (pk new_reply)\<rparr>;
             (self3, w1) = Message_save w self2
         in (None, self3, w1)))"

text \<open>
  \<open>message_list.index(self)\<close>: model instances compare equal when their primary keys are
  equal, and \<open>index\<close> raises \<open>ValueError\<close> when no element is equal to \<open>self\<close>.  In
  \<open>get_conversation_history_for_api\<close> the \<open>except ValueError\<close> clause is the \<open>Inl\<close> case,
  and \<open>self.conversation\<close> is used through its primary key only, the foreign key of
  \<open>self\<close>.
\<close>

fun list_index :: "Message list \<Rightarrow> Message \<Rightarrow> exn + nat" where
  "list_index [] self = Inl (ValueError ''not in list'')"
| "list_index (x # xs) self =
     (if pk x = pk self then Inr 0
      else (case list_index xs self of Inl e \<Rightarrow> Inl e | Inr i \<Rightarrow> Inr (Suc i)))"

definition get_conversation_history_for_api :: "world \<Rightarrow> Message \<Rightarrow> Message list" where
  "get_conversation_history_for_api w self =
     (let message_list = get_active_messages w (conversation self) in
      case list_index message_list self of
        Inr current_index \<Rightarrow> take (current_index + 1) message_list
      | Inl e \<Rightarrow> message_list)"

definition to_openai_format :: "Message \<Rightarrow> openai_message" where
  "to_openai_format self = (role self, content self)"

section \<open>The request handlers (chat/views.py)\<close>

text \<open>
  The settings the handlers read.  The settings module is not part of the sources, so its
  values are parameters.
\<close>

record settings =
  OPENAI_API_KEY :: string
  MESSAGE_HISTORY_LIMIT :: int

text \<open>
  A request body: either it is not JSON (\<open>json.loads\<close> raises \<open>JSONDecodeError\<close>), or it is an
  object, given by what \<open>data.get\<close> finds under the one key the handler reads (\<open>None\<close> when
  the key is absent).
\<close>

datatype 'a body = Invalid_JSON | Json "'a option"

text \<open>
  What a handler answers: a JSON error with its status and text, one of the success payloads,
  or an exception that leaves the handler (\<open>get_object_or_404\<close> outside the \<open>try\<close>).
\<close>

datatype response =
    Raised exn
  | JsonResponse_error nat string
  | JsonResponse_send Message Message
  | JsonResponse_regenerate Message

text \<open>
  \<open>get_object_or_404\<close> on the rows that match the lookup: \<open>Http404\<close> when there is none,
  \<open>MultipleObjectsReturned\<close> when there are several.
\<close>

definition get_object_or_404 :: "'a list \<Rightarrow> exn + 'a" where
  "get_object_or_404 matching =
     (case matching of
        [] \<Rightarrow> Inl Http404
      | [x] \<Rightarrow> Inr x
      | _ \<Rightarrow> Inl MultipleObjectsReturned)"

text \<open>
  A character of a request is a code point below 256.  \<open>str.strip()\<close> removes the white
  space at both ends; below 256 the characters that \<open>str.isspace\<close> accepts are the codes
  9 to 13, 28 to 32, 133 (U+0085) and 160 (U+00A0).
\<close>

definition isspace :: "char \<Rightarrow> bool" where
  "isspace c = (of_char c \<in> {9, 10, 11, 12, 13, 28, 29, 30, 31, 32, 133, 160 :: nat})"

definition strip :: "string \<Rightarrow> string" where
  "strip s = rev (dropWhile isspace (rev (dropWhile isspace s)))"

text \<open>
  An exception inside \<open>with transaction.atomic()\<close> rolls the two tables back to what they were
  when the block was entered; the reads of the clock are not undone.
\<close>

definition rollback :: "world \<Rightarrow> world \<Rightarrow> world" where
  "rollback w_entry w = w\<lparr>conversations := conversations w_entry, messages := messages w_entry\<rparr>"

text \<open>
  The body of the \<open>transaction.atomic()\<close> block of \<open>send_message\<close>.  A \<open>return\<close> inside
  the block commits what has been written; \<open>if ai_response\<close> fails for \<open>None\<close> and for
  the empty string.  The handlers run behind \<open>login_required\<close>: \<open>request_user\<close> is the
  authenticated user.
\<close>

definition send_message_atomic ::
  "settings \<Rightarrow> moderations_create \<Rightarrow> completions_create \<Rightarrow> world \<Rightarrow> Conversation \<Rightarrow> string
     \<Rightarrow> (exn \<times> world) + response \<times> world" where
  "send_message_atomic st create complete w conv c =
     (let (user_message, w1) = Message_objects_create w (conversation_pk conv) ''user'' c None;
          (conv', w2) = update_title_from_first_message w1 conv;
          recent_messages = get_recent_messages_for_api w2 (conversation_pk conv') (MESSAGE_HISTORY_LIMIT st);
          openai_messages = map to_openai_format recent_messages
      in case generate_chat_completion create complete openai_messages of
           Inl e \<Rightarrow> Inl (e, w2)
         | Inr None \<Rightarrow> Inr (JsonResponse_error 500 ''Failed to generate AI response'', w2)
         | Inr (Some ai_response) \<Rightarrow>
             if ai_response \<noteq> [] then
               (let (assistant_message, w3) =
                      Message_objects_create w2 (conversation_pk conv') ''assistant'' ai_response
                        (Some (pk user_message))
                in Inr (JsonResponse_send user_message assistant_message, w3))
             else Inr (JsonResponse_error 500 ''Failed to generate AI response'', w2))"

definition send_message ::
  "settings \<Rightarrow> moderations_create \<Rightarrow> completions_create \<Rightarrow> world \<Rightarrow> nat \<Rightarrow> nat \<Rightarrow> string body
     \<Rightarrow> response \<times> world" where
  "send_message st create complete w request_user conversation_id request_body =
     (case get_object_or_404
             (filter (\<lambda>c. conversation_pk c = conversation_id \<and> user c = request_user) (conversations w)) of
        Inl e \<Rightarrow> (Raised e, w)
      | Inr conv \<Rightarrow>
          (case request_body of
             Invalid_JSON \<Rightarrow> (JsonResponse_error 400 ''Invalid JSON'', w)
           | Json field \<Rightarrow>
               (let c = strip (case field of None \<Rightarrow> [] | Some s \<Rightarrow> s) in
                if c = [] then (JsonResponse_error 400 ''Message content cannot be empty'', w)
                else if OPENAI_API_KEY st = [] then
                  (JsonResponse_error 500
                     ''OpenAI API key not configured. Please set OPENAI_API_KEY environment variable.'', w)
                else
                  (case send_message_atomic st create complete w conv c of
                     Inl (e, w') \<Rightarrow> (JsonResponse_error 500 ''Failed to send message'', rollback w w')
                   | Inr (resp, w') \<Rightarrow> (resp, w')))))"

text \<open>
  The body of the \<open>transaction.atomic()\<close> block of \<open>regenerate_reply\<close>.  In the handler
  itself the lookup of the user message stands inside the \<open>try\<close>, so that its \<open>Http404\<close> is
  caught by \<open>except Exception\<close> and answered with the error 500; a \<open>message_id\<close> that is
  absent or 0 is falsy.
\<close>

definition regenerate_reply_atomic ::
  "moderations_create \<Rightarrow> completions_create \<Rightarrow> world \<Rightarrow> Conversation \<Rightarrow> Message
     \<Rightarrow> (exn \<times> world) + response \<times> world" where
  "regenerate_reply_atomic create complete w conv user_message =
     (let current_assistant_reply =
            first (order_by_created_at
                     (filter (\<lambda>m. parent_user_message m = Some (pk user_message) \<and> role m = ''assistant''
                                   \<and> \<not> superseded m) (messages w)));
          messages_for_api = get_conversation_history_for_api w user_message;
          openai_messages = map to_openai_format messages_for_api
      in case generate_chat_completion create complete openai_messages of
           Inl e \<Rightarrow> Inl (e, w)
         | Inr None \<Rightarrow> Inr (JsonResponse_error 500 ''Failed to generate AI response'', w)
         | Inr (Some ai_response) \<Rightarrow>
             if ai_response \<noteq> [] then
               (let (new_assistant_message, w1) =
                      Message_objects_create w (conversation_pk conv) ''assistant'' ai_response
                        (Some (pk user_message))
                in case current_assistant_reply of
                     None \<Rightarrow> Inr (JsonResponse_regenerate new_assistant_message, w1)
                   | Some old_reply \<Rightarrow>
                       (case supersede_with_new_reply w1 old_reply new_assistant_message of
                          (Some e, old_reply', w2) \<Rightarrow> Inl (e, w2)
                        | (None, old_reply', w2) \<Rightarrow> Inr (JsonResponse_regenerate new_assistant_message, w2)))
             else Inr (JsonResponse_error 500 ''Failed to generate AI response'', w))"

definition regenerate_reply ::
  "settings \<Rightarrow> moderations_create \<Rightarrow> completions_create \<Rightarrow> world \<Rightarrow> nat \<Rightarrow> nat \<Rightarrow> nat body
     \<Rightarrow> response \<times> world" where
  "regenerate_reply st create complete w request_user conversation_id request_body =
     (case get_object_or_404
             (filter (\<lambda>c. conversation_pk c = conversation_id \<and> user c = request_user) (conversations w)) of
        Inl e \<Rightarrow> (Raised e, w)
      | Inr conv \<Rightarrow>
          (case request_body of
             Invalid_JSON \<Rightarrow> (JsonResponse_error 400 ''Invalid JSON'', w)
           | Json None \<Rightarrow> (JsonResponse_error 400 ''message_id is required'', w)
           | Json (Some user_message_id) \<Rightarrow>
               if user_message_id = 0 then (JsonResponse_error 400 ''message_id is required'', w)
               else
                 (case get_object_or_404
                         (filter (\<lambda>m. pk m = user_message_id \<and> conversation m = conversation_pk conv
                                       \<and> role m = ''user'') (messages w)) of
                    Inl e \<Rightarrow> (JsonResponse_error 500 ''Failed to regenerate reply'', w)
                  | Inr user_message \<Rightarrow>
                      if OPENAI_API_KEY st = [] then
                        (JsonResponse_error 500
                           ''OpenAI API key not configured. Please set OPENAI_API_KEY environment variable.'', w)
                      else
                        (case regenerate_reply_atomic create complete w conv user_message of
                           Inl (e, w') \<Rightarrow> (JsonResponse_error 500 ''Failed to regenerate reply'', rollback w w')
                         | Inr (resp, w') \<Rightarrow> (resp, w')))))"

section \<open>Auxiliary definitions and example inputs\<close>

text \<open>
  The title that lines 46 to 48 of \<open>models.py\<close> compute from the content of the first
  message; it only abbreviates that expression in the statements below.
\<close>

definition derived_title :: "string \<Rightarrow> string" where
  "derived_title c = (if length c > 50 then take 50 c @ ''...'' else take 50 c)"

text \<open>The history of the test \<open>test_trim_messages_by_token_limit\<close>.\<close>

definition test_messages :: "openai_message list" where
  "test_messages =
     [(''user'', ''Short message''), (''assistant'', ''Another short message''),
      (''user'', replicate 1000 CHR ''A''), (''assistant'', ''Final message'')]"

text \<open>Collaborators with a fixed behaviour.\<close>

definition never_flags :: moderations_create where
  "never_flags n text = Inr [(False, [])]"

definition moderation_down :: moderations_create where
  "moderation_down n text = Inl OtherException"

definition rate_limited :: completions_create where
  "rate_limited msgs = Inl RateLimitError"

definition answers_hi :: completions_create where
  "answers_hi msgs = Inr [Some ''Hi there!'']"

text \<open>
  The message of the test \<open>test_update_title_from_first_message\<close>.
\<close>

definition long_message :: string where
  "long_message = ''This is a very long message that should be truncated when used as title''"

text \<open>
  A state with two conversations of user 1, both still titled with the placeholder.  The first
  holds the three messages of the test \<open>test_get_active_messages\<close>: a user message, the
  assistant's reply to it, and a superseded assistant message.  The second is empty.
\<close>

definition conversation1 :: Conversation where
  "conversation1 = \<lparr>conversation_pk = 1, user = 1, title = ''New Conversation'',
                     conversation_created_at = 1, updated_at = 1\<rparr>"

definition conversation2 :: Conversation where
  "conversation2 = \<lparr>conversation_pk = 2, user = 1, title = ''New Conversation'',
                     conversation_created_at = 2, updated_at = 2\<rparr>"

definition hello :: Message where
  "hello = \<lparr>pk = 1, conversation = 1, role = ''user'', content = ''Hello'', created_at = 10,
             edited = False, edited_at = None, previous_content = [], superseded = False,
             replaced_by = None, parent_user_message = None\<rparr>"

definition hi_there :: Message where
  "hi_there = \<lparr>pk = 2, conversation = 1, role = ''assistant'', content = ''Hi there!'', created_at = 11,
                edited = False, edited_at = None, previous_content = [], superseded = False,
                replaced_by = None, parent_user_message = Some 1\<rparr>"

definition updated_response :: Message where
  "updated_response = \<lparr>pk = 3, conversation = 1, role = ''assistant'', content = ''Updated response'',
                created_at = 12, edited = False, edited_at = None, previous_content = [],
                superseded = True, replaced_by = None, parent_user_message = None\<rparr>"

definition world1 :: world where
  "world1 = \<lparr>conversations = [conversation1, conversation2],
              messages = [hello, hi_there, updated_response],
              clock = (\<lambda>k. 100 + k), ticks = 0\<rparr>"

definition configured :: settings where
  "configured = \<lparr>OPENAI_API_KEY = ''sk-test'', MESSAGE_HISTORY_LIMIT = 12\<rparr>"

text \<open>
  The messages that the handlers create in the examples below.
\<close>

definition new_reply :: Message where
  "new_reply = \<lparr>pk = 4, conversation = 1, role = ''assistant'', content = ''Hi there!'', created_at = 100,
                edited = False, edited_at = None, previous_content = [], superseded = False,
                replaced_by = None, parent_user_message = Some 1\<rparr>"

definition hello_sent :: Message where
  "hello_sent = \<lparr>pk = 4, conversation = 2, role = ''user'', content = ''Hello'', created_at = 100,
                edited = False, edited_at = None, previous_content = [], superseded = False,
                replaced_by = None, parent_user_message = None\<rparr>"

definition hi_sent :: Message where
  "hi_sent = \<lparr>pk = 5, conversation = 2, role = ''assistant'', content = ''Hi there!'', created_at = 102,
                edited = False, edited_at = None, previous_content = [], superseded = False,
                replaced_by = None, parent_user_message = Some 4\<rparr>"

section \<open>The size budget\<close>

lemma total_size_Nil [simp]: "total_size [] = 0"
  by (simp add: total_size_def)
lemma total_size_Cons [simp]: "total_size (m # ms) = estimate_tokens (snd m) + total_size ms"
  by (simp add: total_size_def)
lemma total_size_append [simp]: "total_size (xs @ ys) = total_size xs + total_size ys"
  by (simp add: total_size_def)
lemma total_size_rev [simp]: "total_size (rev xs) = total_size xs"
  by (induction xs) simp_all
lemma estimate_tokens_nonneg: "0 \<le> estimate_tokens s"
  by (simp add: estimate_tokens_def)
lemma total_size_nonneg: "0 \<le> total_size xs"
  by (induction xs) (simp_all add: estimate_tokens_nonneg)

lemma trim_loop_char:
  "\<exists>k\<le>length xs. trim_loop mx xs (total_size acc) acc = rev (take k xs) @ acc
     \<and> (k < length xs \<longrightarrow> mx < total_size acc + total_size (take k xs) + estimate_tokens (snd (xs ! k)))
     \<and> (\<forall>j. 0 < j \<and> j \<le> k \<longrightarrow> total_size acc + total_size (take j xs) \<le> mx)"
proof (induction xs arbitrary: acc)
  case Nil
  show ?case by simp
next
  case (Cons x xs)
  show ?case
  proof (cases "total_size acc + estimate_tokens (snd x) \<le> mx")
    case False
    then show ?thesis by (intro exI[of _ 0]) simp
  next
    case True
    from Cons.IH[of "x # acc"] obtain k where k: "k \<le> length xs"
      "trim_loop mx xs (total_size (x # acc)) (x # acc) = rev (take k xs) @ x # acc"
      "k < length xs \<longrightarrow> mx < total_size (x # acc) + total_size (take k xs) + estimate_tokens (snd (xs ! k))"
      "\<forall>j. 0 < j \<and> j \<le> k \<longrightarrow> total_size (x # acc) + total_size (take j xs) \<le> mx"
      by blast
    have "\<forall>j. 0 < j \<and> j \<le> Suc k \<longrightarrow> total_size acc + total_size (take j (x # xs)) \<le> mx"
    proof (intro allI impI)
      fix j assume j: "0 < j \<and> j \<le> Suc k"
      then obtain i where i: "j = Suc i" by (cases j) auto
      show "total_size acc + total_size (take j (x # xs)) \<le> mx"
      proof (cases i)
        case 0
        with i True show ?thesis by simp
      next
        case (Suc i')
        with i j k(4) have "total_size (x # acc) + total_size (take i xs) \<le> mx" by simp
        with i show ?thesis by (simp add: algebra_simps)
      qed
    qed
    with k True show ?thesis
      by (intro exI[of _ "Suc k"]) (simp add: algebra_simps)
  qed
qed


text \<open>
  Claim C2.  For every history and every budget, \<open>trim_messages_by_token_limit\<close> returns the
  \<open>k\<close> most recent entries, in their chronological order, for some \<open>k\<close>: a contiguous suffix
  of the input.  Sizes are \<open>len(content) // 4\<close>.  Counting from the most recent entry
  backward, every kept entry left the running total at or below the budget, and when an entry
  is left out (\<open>k < length msgs\<close>) the most recent entry left out is one that would have
  taken the total over the budget: the first overflow stops the inclusion of everything older.
  The total size of the result is at most the budget whenever the budget is not negative and
  whenever the result is not empty; for a negative budget the result is empty.  When the most
  recent entry alone exceeds the budget, the result is the empty sequence.
\<close>

theorem trim_messages_by_token_limit_suffix_within_budget:
  "\<exists>k\<le>length msgs.
      trim_messages_by_token_limit msgs max_units = drop (length msgs - k) msgs
    \<and> (\<forall>j. 0 < j \<and> j \<le> k \<longrightarrow> total_size (drop (length msgs - j) msgs) \<le> max_units)
    \<and> (k < length msgs \<longrightarrow>
         max_units < total_size (drop (length msgs - k) msgs)
                       + estimate_tokens (snd (msgs ! (length msgs - Suc k))))
    \<and> (0 \<le> max_units \<longrightarrow> total_size (trim_messages_by_token_limit msgs max_units) \<le> max_units)
    \<and> (trim_messages_by_token_limit msgs max_units \<noteq> [] \<longrightarrow>
         total_size (trim_messages_by_token_limit msgs max_units) \<le> max_units)
    \<and> (max_units < 0 \<longrightarrow> trim_messages_by_token_limit msgs max_units = [])
    \<and> (msgs \<noteq> [] \<and> max_units < estimate_tokens (snd (last msgs)) \<longrightarrow>
         trim_messages_by_token_limit msgs max_units = [])"
proof -
  let ?n = "length msgs"
  from trim_loop_char[of "rev msgs" max_units "[]"] obtain k where k: "k \<le> ?n"
    and res: "trim_loop max_units (rev msgs) 0 [] = rev (take k (rev msgs))"
    and stop: "k < ?n \<longrightarrow> max_units < total_size (take k (rev msgs)) + estimate_tokens (snd (rev msgs ! k))"
    and keep: "\<forall>j. 0 < j \<and> j \<le> k \<longrightarrow> total_size (take j (rev msgs)) \<le> max_units"
    by auto
  have suffix: "\<And>j. rev (take j (rev msgs)) = drop (?n - j) msgs"
    by (simp add: rev_take)
  have size: "\<And>j. total_size (take j (rev msgs)) = total_size (drop (?n - j) msgs)"
    using suffix total_size_rev by metis
  have result: "trim_messages_by_token_limit msgs max_units = drop (?n - k) msgs"
    by (simp add: trim_messages_by_token_limit_def res suffix)
  have kept: "\<forall>j. 0 < j \<and> j \<le> k \<longrightarrow> total_size (drop (?n - j) msgs) \<le> max_units"
    using keep size by simp
  have stopped: "k < ?n \<longrightarrow>
      max_units < total_size (drop (?n - k) msgs) + estimate_tokens (snd (msgs ! (?n - Suc k)))"
    using stop size by (simp add: rev_nth)
  have bound: "0 < k \<longrightarrow> total_size (drop (?n - k) msgs) \<le> max_units"
    using kept by blast
  have zero: "k = 0 \<longrightarrow> drop (?n - k) msgs = []"
    by simp
  have within: "0 \<le> max_units \<longrightarrow> total_size (drop (?n - k) msgs) \<le> max_units"
    using bound zero by (cases k) simp_all
  have nonempty: "drop (?n - k) msgs \<noteq> [] \<longrightarrow> total_size (drop (?n - k) msgs) \<le> max_units"
    using bound zero by (cases k) simp_all
  have overflow: "msgs \<noteq> [] \<and> max_units < estimate_tokens (snd (last msgs)) \<longrightarrow> drop (?n - k) msgs = []"
  proof (intro impI)
    assume a: "msgs \<noteq> [] \<and> max_units < estimate_tokens (snd (last msgs))"
    have "k = 0"
    proof (rule ccontr)
      assume "k \<noteq> 0"
      then have "1 \<le> k" by simp
      with kept have "total_size (drop (?n - 1) msgs) \<le> max_units" by simp
      moreover from a have "drop (?n - 1) msgs = [last msgs]"
        by (metis append_butlast_last_id append_eq_conv_conj length_butlast)
      ultimately show False using a by simp
    qed
    then show "drop (?n - k) msgs = []" by simp
  qed
  have negative: "max_units < 0 \<longrightarrow> drop (?n - k) msgs = []"
    using nonempty total_size_nonneg[of "drop (?n - k) msgs"] by fastforce
  show ?thesis
    using k result kept stopped within nonempty negative overflow by (intro exI[of _ k]) simp
qed

text \<open>
  Witness for C2: the history of the test with the budgets 100, 2 and -1.
\<close>

theorem trim_messages_by_token_limit_witness:
  "trim_messages_by_token_limit test_messages 100 = [(''assistant'', ''Final message'')]
   \<and> total_size (trim_messages_by_token_limit test_messages 100) = 3
   \<and> (100::int) < 3 + estimate_tokens (snd (test_messages ! 2))
   \<and> estimate_tokens (snd (last test_messages)) = 3
   \<and> trim_messages_by_token_limit test_messages 2 = []
   \<and> trim_messages_by_token_limit test_messages (- 1) = []"
  using trim_messages_by_token_limit_suffix_within_budget [of test_messages 100]
    trim_messages_by_token_limit_suffix_within_budget [of test_messages 2]
    trim_messages_by_token_limit_suffix_within_budget [of test_messages "- 1"]
  by (simp add: trim_messages_by_token_limit_def test_messages_def estimate_tokens_def total_size_def)

section \<open>The gateway never raises\<close>

lemma check_moderation_returns: "\<exists>v. check_moderation create n text = Inr v"
  by (simp add: check_moderation_def split: sum.splits)

lemma check_moderation_failure:
  "create n text = Inl e \<Longrightarrow> check_moderation create n text = Inr \<lparr>flagged = False, categories = []\<rparr>"
  by (simp add: check_moderation_def)

lemma moderation_loop_returns: "\<exists>v. moderation_loop create n msgs = Inr v"
proof (induction msgs arbitrary: n)
  case Nil
  show ?case by simp
next
  case (Cons m msgs)
  obtain v where v: "check_moderation create n (snd m) = Inr v"
    using check_moderation_returns by blast
  show ?case using Cons.IH v by simp
qed

lemma moderation_loop_all_fail:
  "\<forall>k t. \<exists>e. create k t = Inl e \<Longrightarrow> moderation_loop create n msgs = Inr None"
proof (induction msgs arbitrary: n)
  case Nil
  show ?case by simp
next
  case (Cons m msgs)
  from Cons.prems obtain e where "create n (snd m) = Inl e" by blast
  then have "check_moderation create n (snd m) = Inr \<lparr>flagged = False, categories = []\<rparr>"
    by (rule check_moderation_failure)
  with Cons show ?case by simp
qed

lemma except_clauses_nonempty: "except_clauses e \<noteq> []"
  by (cases e) (simp_all add: high_demand_message_def misconfigured_message_def
      technical_difficulties_message_def unexpected_error_message_def)

text \<open>
  Claim C5.  For every history and every behaviour of the two collaborators,
  \<open>generate_chat_completion\<close> returns and does not raise.  When the moderation loop has run to
  its end and the completion call fails with \<open>e\<close>, the value returned is the fixed, non-empty
  string of the \<open>except\<close> clause that catches \<open>e\<close>: the "high demand" text for a rate
  limit, the "service configuration" text for an authentication failure, the "technical
  difficulties" text for any other API error, and the generic text for every other exception.
\<close>

theorem generate_chat_completion_never_raises:
  "(\<exists>v. generate_chat_completion create complete msgs = Inr v)
   \<and> (moderation_loop create 0 msgs = Inr None \<and> complete msgs = Inl e \<longrightarrow>
        generate_chat_completion create complete msgs = Inr (Some (except_clauses e))
        \<and> except_clauses e \<noteq> [])
   \<and> except_clauses RateLimitError
        = ''I'm currently experiencing high demand. Please try again in a moment.''
   \<and> except_clauses AuthenticationError
        = ''There's an issue with the AI service configuration. Please contact support.''
   \<and> except_clauses APIError
        = ''I'm experiencing technical difficulties. Please try again later.''
   \<and> (e \<noteq> RateLimitError \<and> e \<noteq> AuthenticationError \<and> e \<noteq> APIError \<longrightarrow>
        except_clauses e = ''An unexpected error occurred. Please try again.'')"
proof -
  have returns: "\<exists>v. generate_chat_completion create complete msgs = Inr v"
    by (simp add: generate_chat_completion_def split: sum.splits option.splits)
  have failure: "moderation_loop create 0 msgs = Inr None \<and> complete msgs = Inl e \<longrightarrow>
        generate_chat_completion create complete msgs = Inr (Some (except_clauses e))"
    by (simp add: generate_chat_completion_def api_call_def)
  have other: "e \<noteq> RateLimitError \<and> e \<noteq> AuthenticationError \<and> e \<noteq> APIError \<longrightarrow>
        except_clauses e = ''An unexpected error occurred. Please try again.''"
    by (cases e) (simp_all add: unexpected_error_message_def)
  show ?thesis
    using returns failure other except_clauses_nonempty[of e]
    by (simp add: high_demand_message_def misconfigured_message_def technical_difficulties_message_def)
qed

text \<open>
  Witness for C5: a completion backend that answers every call with a rate limit error.
\<close>

theorem generate_chat_completion_never_raises_witness:
  "moderation_loop never_flags 0 [(''user'', ''Hello'')] = Inr None
   \<and> rate_limited [(''user'', ''Hello'')] = Inl RateLimitError
   \<and> generate_chat_completion never_flags rate_limited [(''user'', ''Hello'')]
       = Inr (Some ''I'm currently experiencing high demand. Please try again in a moment.'')"
  using generate_chat_completion_never_raises [of never_flags rate_limited "[(''user'', ''Hello'')]" RateLimitError]
  by (simp add: never_flags_def rate_limited_def check_moderation_def index0_def)

section \<open>Facts about the tables\<close>

lemma save_row_update:
  "key r \<in> set (map key rows) \<Longrightarrow> save_row key r rows = map (\<lambda>x. if key x = key r then r else x) rows"
  by (simp add: save_row_def)

lemma save_row_insert:
  "key r \<notin> set (map key rows) \<Longrightarrow> save_row key r rows = rows @ [r]"
  by (simp add: save_row_def)

lemma save_row_twice:
  assumes "key r1 = key r2"
  shows "save_row key r2 (save_row key r1 rows) = save_row key r2 rows"
proof (cases "key r1 \<in> set (map key rows)")
  case True
  then have 1: "save_row key r1 rows = map (\<lambda>x. if key x = key r1 then r1 else x) rows"
    by (rule save_row_update)
  from True assms have k: "key r2 \<in> set (map key rows)"
    by simp
  then have 2: "save_row key r2 rows = map (\<lambda>x. if key x = key r2 then r2 else x) rows"
    by (rule save_row_update)
  from True have "key r1 \<in> set (map key (map (\<lambda>x. if key x = key r1 then r1 else x) rows))"
    by (force simp: image_iff)
  with assms have "key r2 \<in> set (map key (save_row key r1 rows))"
    by (simp only: 1)
  then have "save_row key r2 (save_row key r1 rows)
      = map (\<lambda>x. if key x = key r2 then r2 else x) (save_row key r1 rows)"
    by (rule save_row_update)
  also have "\<dots> = map (\<lambda>x. if key x = key r2 then r2 else x) rows"
    unfolding 1 using assms by (induction rows) simp_all
  finally show ?thesis
    by (simp only: 2)
next
  case False
  then have 1: "save_row key r1 rows = rows @ [r1]"
    by (rule save_row_insert)
  from False assms have "key r2 \<notin> set (map key rows)"
    by simp
  then have 2: "save_row key r2 rows = rows @ [r2]"
    by (rule save_row_insert)
  have "key r2 \<in> set (map key (rows @ [r1]))"
    using assms by simp
  then have "save_row key r2 (rows @ [r1]) = map (\<lambda>x. if key x = key r2 then r2 else x) (rows @ [r1])"
    by (rule save_row_update)
  also have "\<dots> = map (\<lambda>x. if key x = key r2 then r2 else x) rows @ [r2]"
    using assms by simp
  also have "map (\<lambda>x. if key x = key r2 then r2 else x) rows = rows"
    using False assms by (induction rows) simp_all
  finally show ?thesis
    by (simp only: 1 2)
qed

lemma save_row_mem: "r \<in> set (save_row key r rows)"
proof (cases "key r \<in> set (map key rows)")
  case True
  then show ?thesis
    by (force simp: save_row_update image_iff)
next
  case False
  then show ?thesis
    by (simp add: save_row_insert)
qed

lemma save_row_same_key:
  assumes "x \<in> set (save_row key r rows)" and "key x = key r"
  shows "x = r"
proof (cases "key r \<in> set (map key rows)")
  case True
  with assms show ?thesis
    by (auto simp: save_row_update split: if_splits)
next
  case False
  with assms show ?thesis
    by (force simp: save_row_insert image_iff)
qed

lemma save_row_key_mem: "key r \<in> set (map key (save_row key r rows))"
  using save_row_mem[of r key rows] by (simp add: image_iff) blast

lemma save_row_again:
  assumes "key r2 = key r1" and "f r2 = f r1"
  shows "map f (save_row key r2 (save_row key r1 rows)) = map f (save_row key r1 rows)"
proof -
  have "key r2 \<in> set (map key (save_row key r1 rows))"
    using save_row_key_mem[of key r1 rows] assms(1) by simp
  then have "save_row key r2 (save_row key r1 rows)
      = map (\<lambda>x. if key x = key r2 then r2 else x) (save_row key r1 rows)"
    by (rule save_row_update)
  moreover have "map f (map (\<lambda>x. if key x = key r2 then r2 else x) xs) = map f xs"
    if "\<forall>x\<in>set xs. key x = key r1 \<longrightarrow> x = r1" for xs
    using that assms by (induction xs) auto
  moreover have "\<forall>x\<in>set (save_row key r1 rows). key x = key r1 \<longrightarrow> x = r1"
  proof (cases "key r1 \<in> set (map key rows)")
    case True
    then show ?thesis by (auto simp: save_row_update)
  next
    case False
    then show ?thesis by (force simp: save_row_insert image_iff)
  qed
  ultimately show ?thesis by simp
qed

lemma fresh_pk_fresh: "m \<in> set rows \<Longrightarrow> pk m < fresh_pk rows"
  by (induction rows) (auto simp: fresh_pk_def)

lemma Message_objects_create_eq:
  "Message_objects_create w conv r c parent =
     (\<lparr>pk = fresh_pk (messages w), conversation = conv, role = r, content = c,
       created_at = clock w (ticks w), edited = False, edited_at = None, previous_content = [],
       superseded = False, replaced_by = None, parent_user_message = parent\<rparr>,
      w\<lparr>ticks := Suc (ticks w),
        messages := messages w @
          [\<lparr>pk = fresh_pk (messages w), conversation = conv, role = r, content = c,
            created_at = clock w (ticks w), edited = False, edited_at = None, previous_content = [],
            superseded = False, replaced_by = None, parent_user_message = parent\<rparr>]\<rparr>)"
  by (simp add: Message_objects_create_def timezone_now_def Let_def)

lemma order_by_created_at_Nil: "order_by_created_at xs = [] \<longleftrightarrow> xs = []"
  by (cases xs) (simp_all add: order_by_created_at_def)

lemma filter_singletonD:
  assumes "filter P xs = [r]"
  shows "r \<in> set xs" and "P r" and "\<forall>x\<in>set xs. P x \<longrightarrow> x = r"
proof -
  have "set (filter P xs) = {r}"
    by (simp add: assms)
  then have s: "{x \<in> set xs. P x} = {r}"
    by simp
  then have "r \<in> {x \<in> set xs. P x}"
    by blast
  then show "r \<in> set xs" and "P r"
    by simp_all
  show "\<forall>x\<in>set xs. P x \<longrightarrow> x = r"
    using s by blast
qed

lemma get_object_or_404_single: "get_object_or_404 [x] = Inr x"
  by (simp add: get_object_or_404_def)

lemma filter_map_none:
  "\<forall>x\<in>set rows. \<not> Q (f x) \<Longrightarrow> filter Q (map f rows) = []"
  by (induction rows) simp_all

text \<open>
  The definitions of the example state.
\<close>

lemmas example_defs = world1_def conversation1_def conversation2_def hello_def hi_there_def
  updated_response_def

section \<open>The history up to a message\<close>

lemma list_index_found:
  "\<exists>x\<in>set xs. pk x = pk m \<Longrightarrow>
   \<exists>i<length xs. list_index xs m = Inr i \<and> pk (xs ! i) = pk m \<and> (\<forall>j<i. pk (xs ! j) \<noteq> pk m)"
proof (induction xs)
  case Nil
  then show ?case by simp
next
  case (Cons x xs)
  show ?case
  proof (cases "pk x = pk m")
    case True
    then show ?thesis by (intro exI[of _ 0]) simp
  next
    case False
    with Cons.prems have "\<exists>y\<in>set xs. pk y = pk m" by simp
    from Cons.IH[OF this] obtain i where i: "i < length xs" "list_index xs m = Inr i"
      "pk (xs ! i) = pk m" "\<forall>j<i. pk (xs ! j) \<noteq> pk m" by blast
    have "\<forall>j<Suc i. pk ((x # xs) ! j) \<noteq> pk m"
      using False i(4) by (auto simp: nth_Cons split: nat.splits)
    with False i show ?thesis by (intro exI[of _ "Suc i"]) simp
  qed
qed

lemma list_index_missing:
  "\<forall>x\<in>set xs. pk x \<noteq> pk m \<Longrightarrow> list_index xs m = Inl (ValueError ''not in list'')"
  by (induction xs) simp_all

lemma set_get_active_messages:
  "set (get_active_messages w c) = {m \<in> set (messages w). conversation m = c \<and> \<not> superseded m}"
  by (auto simp: get_active_messages_def order_by_created_at_def)

lemma distinct_pk_sort_filter:
  "distinct (map pk rows) \<Longrightarrow> distinct (map pk (sort_key created_at (filter P rows)))"
  by (simp add: distinct_map distinct_filter inj_on_def)

lemma distinct_pk_get_active_messages:
  "distinct (map pk (messages w)) \<Longrightarrow> distinct (map pk (get_active_messages w c))"
  by (simp add: get_active_messages_def order_by_created_at_def distinct_pk_sort_filter)

lemma distinct_pk_eq:
  "distinct (map pk xs) \<Longrightarrow> x \<in> set xs \<Longrightarrow> y \<in> set xs \<Longrightarrow> pk x = pk y \<Longrightarrow> x = y"
  by (auto simp: distinct_map inj_on_def)

text \<open>
  Claim C3.  Let \<open>active\<close> be the active messages of the conversation that \<open>m\<close> refers to.
  When a message with the primary key of \<open>m\<close> occurs in \<open>active\<close>,
  \<open>get_conversation_history_for_api\<close> returns the prefix of \<open>active\<close> that ends at its first
  occurrence: the result is not empty and its last element is equal to \<open>m\<close> in the sense of
  the model class (same primary key).  In particular, when \<open>m\<close> is a stored, non-superseded
  row of a table with unique primary keys, the result is not empty and its last element is
  \<open>m\<close> itself.  When no such message occurs in \<open>active\<close>, the result is all of
  \<open>active\<close>; the function returns in every case.
\<close>

theorem get_conversation_history_for_api_prefix:
  "((\<exists>x\<in>set (get_active_messages w (conversation m)). pk x = pk m) \<longrightarrow>
      (\<exists>i<length (get_active_messages w (conversation m)).
          pk (get_active_messages w (conversation m) ! i) = pk m
        \<and> (\<forall>j<i. pk (get_active_messages w (conversation m) ! j) \<noteq> pk m)
        \<and> get_conversation_history_for_api w m = take (Suc i) (get_active_messages w (conversation m)))
      \<and> get_conversation_history_for_api w m \<noteq> []
      \<and> pk (last (get_conversation_history_for_api w m)) = pk m)
   \<and> (m \<in> set (messages w) \<and> \<not> superseded m \<and> distinct (map pk (messages w)) \<longrightarrow>
        get_conversation_history_for_api w m \<noteq> []
      \<and> last (get_conversation_history_for_api w m) = m)
   \<and> ((\<forall>x\<in>set (get_active_messages w (conversation m)). pk x \<noteq> pk m) \<longrightarrow>
        get_conversation_history_for_api w m = get_active_messages w (conversation m))"
proof -
  let ?active = "get_active_messages w (conversation m)"
  let ?history = "get_conversation_history_for_api w m"
  have found: "(\<exists>i<length ?active. pk (?active ! i) = pk m \<and> (\<forall>j<i. pk (?active ! j) \<noteq> pk m)
                  \<and> ?history = take (Suc i) ?active)
               \<and> ?history \<noteq> [] \<and> pk (last ?history) = pk m \<and> last ?history \<in> set ?active"
    if "\<exists>x\<in>set ?active. pk x = pk m"
  proof -
    from list_index_found[OF that] obtain i where i: "i < length ?active"
      "list_index ?active m = Inr i" "pk (?active ! i) = pk m" "\<forall>j<i. pk (?active ! j) \<noteq> pk m"
      by blast
    have h: "?history = take (Suc i) ?active"
      using i(2) by (simp add: get_conversation_history_for_api_def)
    have ne: "?history \<noteq> []"
      using h i(1) by auto
    have l: "last ?history = ?active ! i"
      using h i(1) by (simp add: take_Suc_conv_app_nth)
    show ?thesis
      using i h ne l by auto
  qed
  have active: "?history \<noteq> [] \<and> last ?history = m"
    if a: "m \<in> set (messages w) \<and> \<not> superseded m \<and> distinct (map pk (messages w))"
  proof -
    from a have m: "m \<in> set ?active"
      by (simp add: set_get_active_messages)
    then have "\<exists>x\<in>set ?active. pk x = pk m" by blast
    from found[OF this] have ne: "?history \<noteq> []" and p: "pk (last ?history) = pk m"
      and l: "last ?history \<in> set ?active" by simp_all
    from a have "distinct (map pk ?active)"
      by (simp add: distinct_pk_get_active_messages)
    from distinct_pk_eq[OF this l m p] ne show ?thesis by simp
  qed
  have missing: "?history = ?active" if "\<forall>x\<in>set ?active. pk x \<noteq> pk m"
    using list_index_missing[OF that] by (simp add: get_conversation_history_for_api_def)
  show ?thesis
    using found active missing by blast
qed

text \<open>
  Witness for C3: the history up to the assistant's reply in the example state, and the
  fallback for the superseded message.
\<close>

theorem get_conversation_history_for_api_prefix_witness:
  "hi_there \<in> set (messages world1) \<and> \<not> superseded hi_there \<and> distinct (map pk (messages world1))
   \<and> get_conversation_history_for_api world1 hi_there = [hello, hi_there]
   \<and> last (get_conversation_history_for_api world1 hi_there) = hi_there
   \<and> get_conversation_history_for_api world1 hello = [hello]
   \<and> pk updated_response \<notin> set (map pk (get_active_messages world1 (conversation updated_response)))
   \<and> get_conversation_history_for_api world1 updated_response = [hello, hi_there]"
  using get_conversation_history_for_api_prefix [where w = world1 and m = hi_there]
    get_conversation_history_for_api_prefix [where w = world1 and m = updated_response]
  by (simp add: get_conversation_history_for_api_def get_active_messages_def order_by_created_at_def
      example_defs)

section \<open>Editing a message\<close>

lemma edit_content_stored:
  "role m = ''user'' \<Longrightarrow> pk m \<in> set (map pk (messages w)) \<Longrightarrow>
   edit_content w m c =
     (None,
      m\<lparr>previous_content := content m, content := c, edited := True,
        edited_at := Some (clock w (ticks w))\<rparr>,
      w\<lparr>ticks := Suc (Suc (Suc (ticks w))),
        messages := save_row pk (m\<lparr>previous_content := content m, content := c, edited := True,
                                  edited_at := Some (clock w (ticks w))\<rparr>) (messages w),
        conversations := map (\<lambda>x. if conversation_pk x = conversation m
                                   then x\<lparr>updated_at := clock w (Suc (Suc (ticks w)))\<rparr> else x)
                           (conversations w)\<rparr>)"
  by (simp add: edit_content_def timezone_now_def Message_save_def Let_def)

lemma edit_content_unstored:
  "role m = ''user'' \<Longrightarrow> pk m \<notin> set (map pk (messages w)) \<Longrightarrow>
   edit_content w m c =
     (None,
      m\<lparr>previous_content := content m, content := c, edited := True,
        edited_at := Some (clock w (ticks w)), created_at := clock w (Suc (ticks w))\<rparr>,
      w\<lparr>ticks := Suc (Suc (Suc (Suc (ticks w)))),
        messages := save_row pk (m\<lparr>previous_content := content m, content := c, edited := True,
                                  edited_at := Some (clock w (ticks w)),
                                  created_at := clock w (Suc (ticks w))\<rparr>) (messages w),
        conversations := map (\<lambda>x. if conversation_pk x = conversation m
                                   then x\<lparr>updated_at := clock w (Suc (Suc (Suc (ticks w))))\<rparr> else x)
                           (conversations w)\<rparr>)"
  by (simp add: edit_content_def timezone_now_def Message_save_def Let_def)

text \<open>
  Claim C4.  For a user message \<open>m\<close>, \<open>edit_content\<close> with \<open>c1\<close> followed by
  \<open>edit_content\<close> with \<open>c2\<close> raises nothing and leaves \<open>previous_content = c1\<close>,
  \<open>content = c2\<close> and \<open>edited = True\<close>, on the instance and on the stored row (every row
  with the key of \<open>m\<close> is the instance).  The original content is not retained: the instance
  and the state after the two edits are the same whatever the content and the previous content
  of \<open>m\<close> were before the first edit.
\<close>

theorem edit_content_twice_keeps_one_level:
  assumes "role m = ''user''"
  shows "(case edit_content w m c1 of (r1, m1, w1) \<Rightarrow>
          (case edit_content w1 m1 c2 of (r2, m2, w2) \<Rightarrow>
             r1 = None \<and> r2 = None
           \<and> previous_content m2 = c1 \<and> content m2 = c2 \<and> edited m2
           \<and> pk m2 = pk m \<and> role m2 = ''user''
           \<and> m2 \<in> set (messages w2)
           \<and> (\<forall>x\<in>set (messages w2). pk x = pk m \<longrightarrow> x = m2)
           \<and> (case edit_content w (m\<lparr>content := c0', previous_content := p0'\<rparr>) c1 of
                (r1', m1', w1') \<Rightarrow> edit_content w1' m1' c2 = (r2, m2, w2))))"
proof -
  define stored where "stored \<longleftrightarrow> pk m \<in> set (map pk (messages w))"
  define t where "t = (if stored then created_at m else clock w (Suc (ticks w)))"
  define n where "n = (if stored then Suc (Suc (Suc (ticks w))) else Suc (Suc (Suc (Suc (ticks w)))))"
  define u where "u = (if stored then clock w (Suc (Suc (ticks w))) else clock w (Suc (Suc (Suc (ticks w)))))"
  define m1 where "m1 = m\<lparr>previous_content := content m, content := c1, edited := True,
                           edited_at := Some (clock w (ticks w)), created_at := t\<rparr>"
  define m1' where "m1' = m\<lparr>previous_content := c0', content := c1, edited := True,
                           edited_at := Some (clock w (ticks w)), created_at := t\<rparr>"
  define m2 where "m2 = m\<lparr>previous_content := c1, content := c2, edited := True,
                           edited_at := Some (clock w n), created_at := t\<rparr>"
  define cs where "cs = map (\<lambda>x. if conversation_pk x = conversation m then x\<lparr>updated_at := u\<rparr> else x)
                           (conversations w)"
  define cs2 where "cs2 = map (\<lambda>x. if conversation_pk x = conversation m
                                   then x\<lparr>updated_at := clock w (Suc (Suc n))\<rparr> else x) cs"
  define w1 where "w1 = w\<lparr>ticks := n, messages := save_row pk m1 (messages w), conversations := cs\<rparr>"
  define w1' where "w1' = w\<lparr>ticks := n, messages := save_row pk m1' (messages w), conversations := cs\<rparr>"
  define w2 where "w2 = w\<lparr>ticks := Suc (Suc (Suc n)), messages := save_row pk m2 (messages w),
                           conversations := cs2\<rparr>"
  have e1: "edit_content w m c1 = (None, m1, w1)"
  proof (cases stored)
    case True
    then have "pk m \<in> set (map pk (messages w))" by (simp add: stored_def)
    from edit_content_stored[OF assms this] True show ?thesis
      by (simp add: m1_def w1_def cs_def t_def n_def u_def)
  next
    case False
    then have "pk m \<notin> set (map pk (messages w))" by (simp add: stored_def)
    from edit_content_unstored[OF assms this] False show ?thesis
      by (simp add: m1_def w1_def cs_def t_def n_def u_def)
  qed
  have e1': "edit_content w (m\<lparr>content := c0', previous_content := p0'\<rparr>) c1 = (None, m1', w1')"
  proof (cases stored)
    case True
    then have "pk (m\<lparr>content := c0', previous_content := p0'\<rparr>) \<in> set (map pk (messages w))"
      by (simp add: stored_def)
    from edit_content_stored[OF _ this, of c1] assms True show ?thesis
      by (simp add: m1'_def w1'_def cs_def t_def n_def u_def)
  next
    case False
    then have "pk (m\<lparr>content := c0', previous_content := p0'\<rparr>) \<notin> set (map pk (messages w))"
      by (simp add: stored_def)
    from edit_content_unstored[OF _ this, of c1] assms False show ?thesis
      by (simp add: m1'_def w1'_def cs_def t_def n_def u_def)
  qed
  have r1: "role m1 = ''user''" and r1': "role m1' = ''user''"
    using assms by (simp_all add: m1_def m1'_def)
  have p1: "pk m1 \<in> set (map pk (messages w1))"
    using save_row_key_mem[of pk m1 "messages w"] by (simp add: w1_def)
  have p1': "pk m1' \<in> set (map pk (messages w1'))"
    using save_row_key_mem[of pk m1' "messages w"] by (simp add: w1'_def)
  have s: "save_row pk m2 (save_row pk m1 (messages w)) = save_row pk m2 (messages w)"
    by (rule save_row_twice) (simp add: m1_def m2_def)
  have s': "save_row pk m2 (save_row pk m1' (messages w)) = save_row pk m2 (messages w)"
    by (rule save_row_twice) (simp add: m1'_def m2_def)
  have e2: "edit_content w1 m1 c2 = (None, m2, w2)"
  proof -
    have a: "m1\<lparr>previous_content := content m1, content := c2, edited := True,
                edited_at := Some (clock w1 (ticks w1))\<rparr> = m2"
      by (cases m) (simp add: m1_def m2_def w1_def)
    have b: "conversation m1 = conversation m"
      by (simp add: m1_def)
    have c: "w1\<lparr>ticks := Suc (Suc (Suc (ticks w1))), messages := save_row pk m2 (messages w1),
                conversations := map (\<lambda>x. if conversation_pk x = conversation m
                                   then x\<lparr>updated_at := clock w1 (Suc (Suc (ticks w1)))\<rparr> else x)
                           (conversations w1)\<rparr> = w2"
      by (simp add: w1_def w2_def cs2_def s cong: if_cong)
    show ?thesis
      unfolding edit_content_stored[OF r1 p1] a b c by (rule refl)
  qed
  have e2': "edit_content w1' m1' c2 = (None, m2, w2)"
  proof -
    have a: "m1'\<lparr>previous_content := content m1', content := c2, edited := True,
                edited_at := Some (clock w1' (ticks w1'))\<rparr> = m2"
      by (cases m) (simp add: m1'_def m2_def w1'_def)
    have b: "conversation m1' = conversation m"
      by (simp add: m1'_def)
    have c: "w1'\<lparr>ticks := Suc (Suc (Suc (ticks w1'))), messages := save_row pk m2 (messages w1'),
                conversations := map (\<lambda>x. if conversation_pk x = conversation m
                                   then x\<lparr>updated_at := clock w1' (Suc (Suc (ticks w1')))\<rparr> else x)
                           (conversations w1')\<rparr> = w2"
      by (simp add: w1'_def w2_def cs2_def s' cong: if_cong)
    show ?thesis
      unfolding edit_content_stored[OF r1' p1'] a b c by (rule refl)
  qed
  have fields: "previous_content m2 = c1 \<and> content m2 = c2 \<and> edited m2 \<and> pk m2 = pk m \<and> role m2 = ''user''"
    using assms by (simp add: m2_def)
  have stored2: "m2 \<in> set (messages w2)"
    by (simp add: w2_def save_row_mem)
  have only: "\<forall>x\<in>set (messages w2). pk x = pk m \<longrightarrow> x = m2"
    using save_row_same_key[of _ pk m2 "messages w"] fields by (simp add: w2_def)
  have "None = None \<and> None = None
           \<and> previous_content m2 = c1 \<and> content m2 = c2 \<and> edited m2
           \<and> pk m2 = pk m \<and> role m2 = ''user''
           \<and> m2 \<in> set (messages w2)
           \<and> (\<forall>x\<in>set (messages w2). pk x = pk m \<longrightarrow> x = m2)
           \<and> (None :: exn option, m2, w2) = (None, m2, w2)"
    using fields stored2 only by blast
  then show ?thesis
    by (simp only: e1 e2 e1' e2' prod.case)
qed

text \<open>
  Witness for C4: two edits of the user message of the example state.
\<close>

theorem edit_content_twice_keeps_one_level_witness:
  "role hello = ''user''
   \<and> (case edit_content world1 hello ''Hello again'' of (r1, m1, w1) \<Rightarrow>
        (case edit_content w1 m1 ''Hello, updated AI!'' of (r2, m2, w2) \<Rightarrow>
           r2 = None \<and> content m2 = ''Hello, updated AI!'' \<and> previous_content m2 = ''Hello again''
           \<and> edited m2 \<and> edited_at m2 = Some 103
           \<and> messages w2 = [m2, hi_there, updated_response]))"
  using edit_content_twice_keeps_one_level [where m = hello and w = world1 and ?c1.0 = "''Hello again''" and ?c2.0 = "''Hello, updated AI!''"]
  by (simp add: edit_content_def timezone_now_def Message_save_def save_row_def Let_def example_defs)

text \<open>
  Claim C10.  For a message whose role is not \<open>user\<close>, \<open>edit_content\<close> raises
  \<open>ValueError\<close> and the instance and the whole state (both tables, hence the content, the
  previous content, the edit flag and stamp, and the \<open>updated_at\<close> of the conversation, and
  the clock) are what they were before the call.
\<close>

theorem edit_content_rejects_other_roles:
  "role m \<noteq> ''user'' \<Longrightarrow>
   edit_content w m new_content = (Some (ValueError ''Only user messages can be edited''), m, w)"
  unfolding edit_content_def by (simp only: if_True not_False_eq_True)

text \<open>
  Witness for C10: an edit of the assistant's reply of the example state.
\<close>

theorem edit_content_rejects_other_roles_witness:
  "role hi_there \<noteq> ''user''
   \<and> edit_content world1 hi_there ''Edited'' =
       (Some (ValueError ''Only user messages can be edited''), hi_there, world1)"
  using edit_content_rejects_other_roles [where m = hi_there and w = world1 and new_content = "''Edited''"]
  by (simp add: hi_there_def)

section \<open>Deriving the title\<close>

lemma update_title_no_message:
  "\<forall>m\<in>set (messages w). \<not> (conversation m = conversation_pk c \<and> role m = ''user'' \<and> \<not> superseded m)
   \<Longrightarrow> update_title_from_first_message w c = (c, w)"
proof -
  assume "\<forall>m\<in>set (messages w). \<not> (conversation m = conversation_pk c \<and> role m = ''user'' \<and> \<not> superseded m)"
  then have "filter (\<lambda>m. conversation m = conversation_pk c \<and> role m = ''user'' \<and> \<not> superseded m) (messages w) = []"
    by (simp add: filter_empty_conv)
  then show ?thesis
    by (simp add: update_title_from_first_message_def order_by_created_at_def first_def)
qed

lemma update_title_customized:
  "title c \<noteq> ''New Conversation'' \<Longrightarrow> update_title_from_first_message w c = (c, w)"
  by (simp add: update_title_from_first_message_def split: option.splits)

lemma update_title_derives:
  assumes "title c = ''New Conversation''"
    and "first (order_by_created_at
           (filter (\<lambda>m. conversation m = conversation_pk c \<and> role m = ''user'' \<and> \<not> superseded m)
              (messages w))) = Some fm"
  shows "update_title_from_first_message w c =
           Conversation_save w (c\<lparr>title := derived_title (content fm)\<rparr>)"
  using assms
  by (simp add: update_title_from_first_message_def derived_title_def Let_def)

lemma Conversation_save_result:
  assumes "Conversation_save w c = (c', w')"
  shows "title c' = title c" and "conversation_pk c' = conversation_pk c"
    and "conversations w' = save_row conversation_pk c' (conversations w)"
    and "messages w' = messages w"
  using assms
  by (auto simp: Conversation_save_def timezone_now_def Let_def split: if_splits)

lemma update_title_messages:
  "messages (snd (update_title_from_first_message w c)) = messages w"
proof -
  have "messages (snd (Conversation_save w x)) = messages w" for x
    using Conversation_save_result(4)[of w x] by (cases "Conversation_save w x") simp
  then show ?thesis
    by (simp add: update_title_from_first_message_def Let_def split: option.splits)
qed

lemma update_title_pk:
  "conversation_pk (fst (update_title_from_first_message w c)) = conversation_pk c"
proof -
  have "conversation_pk (fst (Conversation_save w x)) = conversation_pk x" for x
    using Conversation_save_result(2)[of w x] by (cases "Conversation_save w x") simp
  then show ?thesis
    by (simp add: update_title_from_first_message_def Let_def split: option.splits)
qed

lemma long_message_length: "length long_message = 71"
  by (simp add: long_message_def)

lemma long_message_title:
  "derived_title long_message = ''This is a very long message that should be truncat...''"
  by (simp add: derived_title_def long_message_def)

text \<open>
  Claim C7, amended.  The message of the scenario has 71 characters.  For a conversation
  whose title is the placeholder and which has no active user message, after appending that
  message as a user message, \<open>update_title_from_first_message\<close> sets the title to the first
  50 characters of the message followed by \<open>...\<close>, a title of exactly 53 characters, and
  saves it.  For a conversation whose title is the placeholder and whose first active user
  message has at most 50 characters, the title becomes that content unchanged.
\<close>

theorem update_title_from_first_message_truncates:
  "length long_message = 71
   \<and> (title c = ''New Conversation''
        \<and> (\<forall>m\<in>set (messages w). conversation m = conversation_pk c \<and> role m = ''user'' \<longrightarrow> superseded m)
      \<longrightarrow> (case Message_objects_create w (conversation_pk c) ''user'' long_message None of (m, w1) \<Rightarrow>
           (case update_title_from_first_message w1 c of (c', w2) \<Rightarrow>
              title c' = take 50 long_message @ ''...''
            \<and> title c' = ''This is a very long message that should be truncat...''
            \<and> length (title c') = 53
            \<and> c' \<in> set (conversations w2))))
   \<and> (title c = ''New Conversation''
        \<and> first (order_by_created_at
             (filter (\<lambda>m. conversation m = conversation_pk c \<and> role m = ''user'' \<and> \<not> superseded m)
                (messages w))) = Some fm
        \<and> length (content fm) \<le> 50
      \<longrightarrow> (case update_title_from_first_message w c of (c', w') \<Rightarrow>
             title c' = content fm \<and> c' \<in> set (conversations w')))"
proof -
  have scenario: "(case Message_objects_create w (conversation_pk c) ''user'' long_message None of (m, w1) \<Rightarrow>
           (case update_title_from_first_message w1 c of (c', w2) \<Rightarrow>
              title c' = take 50 long_message @ ''...''
            \<and> title c' = ''This is a very long message that should be truncat...''
            \<and> length (title c') = 53
            \<and> c' \<in> set (conversations w2)))"
    if t: "title c = ''New Conversation''"
      and e: "\<forall>m\<in>set (messages w). conversation m = conversation_pk c \<and> role m = ''user'' \<longrightarrow> superseded m"
  proof -
    define m where "m = \<lparr>pk = fresh_pk (messages w), conversation = conversation_pk c, role = ''user'',
       content = long_message, created_at = clock w (ticks w), edited = False, edited_at = None,
       previous_content = [], superseded = False, replaced_by = None, parent_user_message = None\<rparr>"
    define w1 where "w1 = w\<lparr>ticks := Suc (ticks w), messages := messages w @ [m]\<rparr>"
    have 1: "Message_objects_create w (conversation_pk c) ''user'' long_message None = (m, w1)"
      by (simp add: Message_objects_create_eq m_def w1_def)
    from e have "filter (\<lambda>m. conversation m = conversation_pk c \<and> role m = ''user'' \<and> \<not> superseded m)
                   (messages w) = []"
      by (auto simp: filter_empty_conv)
    then have "filter (\<lambda>m. conversation m = conversation_pk c \<and> role m = ''user'' \<and> \<not> superseded m)
                   (messages w1) = [m]"
      by (simp add: w1_def m_def)
    then have f: "first (order_by_created_at
             (filter (\<lambda>m. conversation m = conversation_pk c \<and> role m = ''user'' \<and> \<not> superseded m)
                (messages w1))) = Some m"
      by (simp add: order_by_created_at_def first_def)
    obtain c' w2 where 2: "update_title_from_first_message w1 c = (c', w2)"
      by (cases "update_title_from_first_message w1 c")
    then have save: "Conversation_save w1 (c\<lparr>title := derived_title (content m)\<rparr>) = (c', w2)"
      by (simp add: update_title_derives[OF t f])
    have title: "title c' = ''This is a very long message that should be truncat...''"
      using Conversation_save_result(1)[OF save] by (simp add: m_def long_message_title)
    have prefix: "take 50 long_message @ ''...'' = ''This is a very long message that should be truncat...''"
      by (simp add: long_message_def)
    have stored: "c' \<in> set (conversations w2)"
      unfolding Conversation_save_result(3)[OF save] by (rule save_row_mem)
    show ?thesis
      using title prefix stored by (simp add: 1 2)
  qed
  have short: "(case update_title_from_first_message w c of (c', w') \<Rightarrow>
             title c' = content fm \<and> c' \<in> set (conversations w'))"
    if t: "title c = ''New Conversation''"
      and f: "first (order_by_created_at
             (filter (\<lambda>m. conversation m = conversation_pk c \<and> role m = ''user'' \<and> \<not> superseded m)
                (messages w))) = Some fm"
      and l: "length (content fm) \<le> 50"
  proof -
    obtain c' w' where 2: "update_title_from_first_message w c = (c', w')"
      by (cases "update_title_from_first_message w c")
    then have save: "Conversation_save w (c\<lparr>title := derived_title (content fm)\<rparr>) = (c', w')"
      by (simp add: update_title_derives[OF t f])
    have title: "title c' = content fm"
      using Conversation_save_result(1)[OF save] l by (simp add: derived_title_def)
    have stored: "c' \<in> set (conversations w')"
      unfolding Conversation_save_result(3)[OF save] by (rule save_row_mem)
    show ?thesis
      using title stored by (simp add: 2)
  qed
  show ?thesis
  proof (intro conjI impI)
    show "length long_message = 71"
      by (rule long_message_length)
  next
    assume a: "title c = ''New Conversation''
        \<and> (\<forall>m\<in>set (messages w). conversation m = conversation_pk c \<and> role m = ''user'' \<longrightarrow> superseded m)"
    show "case Message_objects_create w (conversation_pk c) ''user'' long_message None of (m, w1) \<Rightarrow>
           (case update_title_from_first_message w1 c of (c', w2) \<Rightarrow>
              title c' = take 50 long_message @ ''...''
            \<and> title c' = ''This is a very long message that should be truncat...''
            \<and> length (title c') = 53
            \<and> c' \<in> set (conversations w2))"
      by (rule scenario) (use a in simp_all)
  next
    assume a: "title c = ''New Conversation''
        \<and> first (order_by_created_at
             (filter (\<lambda>m. conversation m = conversation_pk c \<and> role m = ''user'' \<and> \<not> superseded m)
                (messages w))) = Some fm
        \<and> length (content fm) \<le> 50"
    show "case update_title_from_first_message w c of (c', w') \<Rightarrow>
             title c' = content fm \<and> c' \<in> set (conversations w')"
      by (rule short) (use a in simp_all)
  qed
qed

text \<open>
  Witness for C7: the scenario in the empty conversation of the example state, and the short
  first message of the other conversation.
\<close>

theorem update_title_from_first_message_truncates_witness:
  "title conversation2 = ''New Conversation''
   \<and> filter (\<lambda>m. conversation m = conversation_pk conversation2 \<and> role m = ''user'' \<and> \<not> superseded m)
        (messages world1) = []
   \<and> title (fst (update_title_from_first_message
                   (snd (Message_objects_create world1 2 ''user'' long_message None)) conversation2))
       = ''This is a very long message that should be truncat...''
   \<and> title conversation1 = ''New Conversation''
   \<and> first (order_by_created_at
         (filter (\<lambda>m. conversation m = conversation_pk conversation1 \<and> role m = ''user'' \<and> \<not> superseded m)
            (messages world1))) = Some hello
   \<and> length (content hello) \<le> 50
   \<and> title (fst (update_title_from_first_message world1 conversation1)) = ''Hello''"
  using update_title_from_first_message_truncates [where c = conversation2 and w = world1 and fm = hello]
    update_title_from_first_message_truncates [where c = conversation1 and w = world1 and fm = hello]
  by (simp add: long_message_def update_title_from_first_message_def Message_objects_create_def
      Conversation_save_def timezone_now_def first_def order_by_created_at_def Let_def fresh_pk_def
      save_row_def example_defs)

text \<open>
  Counterexample to C7 as stated: the message of the scenario does not have 74 characters,
  and in a conversation that is still titled with the placeholder but already holds an active
  user message, the title derived after appending the long message is the content of the
  earlier message, not the prefix of the appended one.
\<close>

theorem update_title_from_first_message_counterexample:
  "length long_message \<noteq> 74
   \<and> title conversation1 = ''New Conversation''
   \<and> title (fst (update_title_from_first_message
                   (snd (Message_objects_create world1 1 ''user'' long_message None)) conversation1))
       = ''Hello''"
  by (simp add: long_message_def update_title_from_first_message_def Message_objects_create_def
      Conversation_save_def timezone_now_def first_def order_by_created_at_def Let_def fresh_pk_def
      example_defs)

text \<open>
  Claim C8.  \<open>update_title_from_first_message\<close> changes nothing at all (instance and
  state) unless the title is the placeholder and the conversation has an active user message;
  so a change of the title, on the instance or in the table, happens only in that case.  Called
  twice in succession, the second call leaves the title of the instance, the titles stored in the
  table and the messages as the first call left them, and it is a complete no-op whenever the
  title after the first call is not the placeholder.
\<close>

theorem update_title_from_first_message_idempotent:
  "(\<not> (title c = ''New Conversation''
        \<and> (\<exists>m\<in>set (messages w). conversation m = conversation_pk c \<and> role m = ''user'' \<and> \<not> superseded m))
      \<longrightarrow> update_title_from_first_message w c = (c, w))
   \<and> (title (fst (update_title_from_first_message w c)) \<noteq> title c
        \<or> map title (conversations (snd (update_title_from_first_message w c))) \<noteq> map title (conversations w)
      \<longrightarrow> title c = ''New Conversation''
          \<and> (\<exists>m\<in>set (messages w). conversation m = conversation_pk c \<and> role m = ''user'' \<and> \<not> superseded m))
   \<and> (case update_title_from_first_message w c of (c1, w1) \<Rightarrow>
        (case update_title_from_first_message w1 c1 of (c2, w2) \<Rightarrow>
           title c2 = title c1
         \<and> map title (conversations w2) = map title (conversations w1)
         \<and> messages w2 = messages w1
         \<and> (title c1 \<noteq> ''New Conversation'' \<longrightarrow> (c2, w2) = (c1, w1))))"
proof -
  let ?user = "\<lambda>m. conversation m = conversation_pk c \<and> role m = ''user'' \<and> \<not> superseded m"
  let ?q = "order_by_created_at (filter ?user (messages w))"
  have noop: "update_title_from_first_message w c = (c, w)"
    if "\<not> (title c = ''New Conversation'' \<and> (\<exists>m\<in>set (messages w). ?user m))"
  proof (cases "title c = ''New Conversation''")
    case False
    then show ?thesis by (rule update_title_customized)
  next
    case True
    with that have "\<forall>m\<in>set (messages w). \<not> ?user m" by blast
    then show ?thesis by (rule update_title_no_message)
  qed
  have only: "title c = ''New Conversation'' \<and> (\<exists>m\<in>set (messages w). ?user m)"
    if "title (fst (update_title_from_first_message w c)) \<noteq> title c
        \<or> map title (conversations (snd (update_title_from_first_message w c))) \<noteq> map title (conversations w)"
    using that noop by (cases "title c = ''New Conversation'' \<and> (\<exists>m\<in>set (messages w). ?user m)") auto
  have twice: "(case update_title_from_first_message w c of (c1, w1) \<Rightarrow>
        (case update_title_from_first_message w1 c1 of (c2, w2) \<Rightarrow>
           title c2 = title c1
         \<and> map title (conversations w2) = map title (conversations w1)
         \<and> messages w2 = messages w1
         \<and> (title c1 \<noteq> ''New Conversation'' \<longrightarrow> (c2, w2) = (c1, w1))))"
  proof (cases "title c = ''New Conversation'' \<and> (\<exists>m\<in>set (messages w). ?user m)")
    case False
    then have 1: "update_title_from_first_message w c = (c, w)" by (rule noop)
    show ?thesis by (simp add: 1)
  next
    case True
    then have "?q \<noteq> []"
      by (auto simp: order_by_created_at_Nil filter_empty_conv)
    then obtain fm where fm: "first ?q = Some fm"
      by (cases ?q) (simp_all add: first_def)
    obtain c1 w1 where 1: "update_title_from_first_message w c = (c1, w1)"
      by (cases "update_title_from_first_message w c")
    with True fm have save1: "Conversation_save w (c\<lparr>title := derived_title (content fm)\<rparr>) = (c1, w1)"
      by (simp add: update_title_derives)
    have t1: "title c1 = derived_title (content fm)"
      using Conversation_save_result(1)[OF save1] by simp
    have k1: "conversation_pk c1 = conversation_pk c"
      using Conversation_save_result(2)[OF save1] by simp
    have cs1: "conversations w1 = save_row conversation_pk c1 (conversations w)"
      by (rule Conversation_save_result(3)[OF save1])
    have ms1: "messages w1 = messages w"
      by (rule Conversation_save_result(4)[OF save1])
    have q1: "order_by_created_at
           (filter (\<lambda>m. conversation m = conversation_pk c1 \<and> role m = ''user'' \<and> \<not> superseded m)
              (messages w1)) = ?q"
      by (simp add: k1 ms1)
    show ?thesis
    proof (cases "title c1 = ''New Conversation''")
      case False
      then have "update_title_from_first_message w1 c1 = (c1, w1)" by (rule update_title_customized)
      then show ?thesis by (simp add: 1)
    next
      case same: True
      obtain c2 w2 where 2: "update_title_from_first_message w1 c1 = (c2, w2)"
        by (cases "update_title_from_first_message w1 c1")
      with same fm q1 have save2: "Conversation_save w1 (c1\<lparr>title := derived_title (content fm)\<rparr>) = (c2, w2)"
        by (simp add: update_title_derives)
      have t: "title c2 = title c1"
        using Conversation_save_result(1)[OF save2] t1 by simp
      have k: "conversation_pk c2 = conversation_pk c1"
        using Conversation_save_result(2)[OF save2] by simp
      have cs2: "conversations w2 = save_row conversation_pk c2 (conversations w1)"
        by (rule Conversation_save_result(3)[OF save2])
      have "map title (save_row conversation_pk c2 (save_row conversation_pk c1 (conversations w)))
            = map title (save_row conversation_pk c1 (conversations w))"
        using k t by (rule save_row_again)
      then have m: "map title (conversations w2) = map title (conversations w1)"
        by (simp add: cs2 cs1)
      have "messages w2 = messages w1"
        by (rule Conversation_save_result(4)[OF save2])
      with t m same show ?thesis by (simp add: 1 2)
    qed
  qed
  show ?thesis
    using noop only twice by blast
qed

text \<open>
  Witness for C8: the two conversations of the example state.
\<close>

theorem update_title_from_first_message_idempotent_witness:
  "title conversation1 = ''New Conversation''
   \<and> (\<exists>m\<in>set (messages world1). conversation m = conversation_pk conversation1 \<and> role m = ''user''
          \<and> \<not> superseded m)
   \<and> (case update_title_from_first_message world1 conversation1 of (c1, w1) \<Rightarrow>
         title c1 = ''Hello'' \<and> update_title_from_first_message w1 c1 = (c1, w1))
   \<and> \<not> (\<exists>m\<in>set (messages world1). conversation m = conversation_pk conversation2 \<and> role m = ''user''
          \<and> \<not> superseded m)
   \<and> update_title_from_first_message world1 conversation2 = (conversation2, world1)"
  using update_title_from_first_message_idempotent [where w = world1 and c = conversation1]
  by (simp add: update_title_from_first_message_def Conversation_save_def save_row_def timezone_now_def
      order_by_created_at_def first_def Let_def example_defs)

section \<open>Regenerating a reply\<close>

lemma supersede_assistant:
  "role r = ''assistant'' \<Longrightarrow> pk r \<in> set (map pk (messages w)) \<Longrightarrow>
   supersede_with_new_reply w r n =
     (None, r\<lparr>superseded := True, replaced_by := Some (pk n)\<rparr>,
      w\<lparr>messages := save_row pk (r\<lparr>superseded := True, replaced_by := Some (pk n)\<rparr>) (messages w)\<rparr>)"
  by (simp add: supersede_with_new_reply_def Message_save_def Let_def)

lemma regenerate_reply_atomic_success:
  assumes R: "filter (\<lambda>x. parent_user_message x = Some (pk m) \<and> role x = ''assistant'' \<and> \<not> superseded x)
                (messages w) = [R]"
    and gen: "generate_chat_completion create complete
                (map to_openai_format (get_conversation_history_for_api w m)) = Inr (Some s)"
    and s: "s \<noteq> []"
    and N: "N = \<lparr>pk = fresh_pk (messages w), conversation = conversation_pk conv, role = ''assistant'',
                 content = s, created_at = clock w (ticks w), edited = False, edited_at = None,
                 previous_content = [], superseded = False, replaced_by = None,
                 parent_user_message = Some (pk m)\<rparr>"
    and R': "R' = R\<lparr>superseded := True, replaced_by := Some (pk N)\<rparr>"
  shows "regenerate_reply_atomic create complete w conv m =
           Inr (JsonResponse_regenerate N,
                w\<lparr>ticks := Suc (ticks w),
                  messages := map (\<lambda>x. if pk x = pk R then R' else x) (messages w) @ [N]\<rparr>)"
proof -
  have cur: "first (order_by_created_at
               (filter (\<lambda>x. parent_user_message x = Some (pk m) \<and> role x = ''assistant'' \<and> \<not> superseded x)
                  (messages w))) = Some R"
    unfolding R order_by_created_at_def first_def by simp
  have mem: "R \<in> set (messages w)"
    by (rule filter_singletonD(1)[OF R])
  have role: "role R = ''assistant''"
    using filter_singletonD(2)[OF R] by simp
  define w1 where "w1 = w\<lparr>ticks := Suc (ticks w), messages := messages w @ [N]\<rparr>"
  have create: "Message_objects_create w (conversation_pk conv) ''assistant'' s (Some (pk m)) = (N, w1)"
    by (simp add: Message_objects_create_eq N w1_def)
  have k: "pk R' = pk R"
    by (simp add: R')
  have fresh: "pk N \<noteq> pk R"
    using fresh_pk_fresh[OF mem] by (simp add: N)
  have present: "pk R \<in> set (map pk (messages w1))"
    using mem by (simp add: w1_def image_iff) blast
  then have "pk R' \<in> set (map pk (messages w1))"
    by (simp only: k)
  then have "save_row pk R' (messages w1) = map (\<lambda>x. if pk x = pk R' then R' else x) (messages w1)"
    by (rule save_row_update)
  then have saved: "save_row pk R' (messages w1) = map (\<lambda>x. if pk x = pk R then R' else x) (messages w) @ [N]"
    using fresh k by (simp add: w1_def)
  have sup: "supersede_with_new_reply w1 R N =
       (None, R', w1\<lparr>messages := map (\<lambda>x. if pk x = pk R then R' else x) (messages w) @ [N]\<rparr>)"
    using saved by (simp add: supersede_assistant[OF role present] R')
  have final: "w1\<lparr>messages := map (\<lambda>x. if pk x = pk R then R' else x) (messages w) @ [N]\<rparr>
        = w\<lparr>ticks := Suc (ticks w), messages := map (\<lambda>x. if pk x = pk R then R' else x) (messages w) @ [N]\<rparr>"
    by (simp add: w1_def)
  show ?thesis
    unfolding regenerate_reply_atomic_def Let_def cur gen
    using s by (simp add: create sup final)
qed

lemma superseded_rows_inactive:
  assumes only: "\<forall>x\<in>set rows. P x \<longrightarrow> x = R"
    and sup: "\<not> Q R'"
    and sub: "\<And>x. Q x \<Longrightarrow> P x"
  shows "filter Q (map (\<lambda>x. if pk x = pk R then R' else x) rows) = []"
proof (rule filter_map_none, rule ballI)
  fix x assume x: "x \<in> set rows"
  show "\<not> Q (if pk x = pk R then R' else x)"
  proof (cases "pk x = pk R")
    case True
    then show ?thesis using sup by simp
  next
    case False
    then have "x \<noteq> R" by auto
    with only x have "\<not> P x" by blast
    with sub have "\<not> Q x" by blast
    with False show ?thesis by simp
  qed
qed

text \<open>
  Claim C1.  Let \<open>m\<close> be the user message of the conversation that the request names, let
  \<open>R\<close> be its active assistant reply (the one non-superseded assistant message whose
  \<open>parent_user_message\<close> is \<open>m\<close>), and let the gateway return a non-empty content \<open>s\<close>
  for the history up to \<open>m\<close>, with the API key configured.  Then \<open>regenerate_reply\<close>
  answers with a new assistant message \<open>N\<close>, stored under a fresh key in the conversation,
  with content \<open>s\<close> and \<open>parent_user_message = m\<close>; the row of \<open>R\<close> now has
  \<open>superseded = True\<close> and \<open>replaced_by = N\<close>; and the active messages of the conversation
  contain exactly one assistant reply to \<open>m\<close>, namely \<open>N\<close>: they contain \<open>N\<close>, they do
  not contain \<open>R\<close>, and none of them is superseded.
\<close>

theorem regenerate_reply_supersedes:
  assumes conv: "filter (\<lambda>c. conversation_pk c = cid \<and> user c = u) (conversations w) = [conv]"
    and um: "filter (\<lambda>x. pk x = mid \<and> conversation x = cid \<and> role x = ''user'') (messages w) = [m]"
    and mid: "mid \<noteq> 0"
    and key: "OPENAI_API_KEY st \<noteq> []"
    and R: "filter (\<lambda>x. parent_user_message x = Some mid \<and> role x = ''assistant'' \<and> \<not> superseded x)
              (messages w) = [R]"
    and gen: "generate_chat_completion create complete
                (map to_openai_format (get_conversation_history_for_api w m)) = Inr (Some s)"
    and s: "s \<noteq> []"
  shows "\<exists>N w'. regenerate_reply st create complete w u cid (Json (Some mid)) = (JsonResponse_regenerate N, w')
     \<and> N \<in> set (messages w') \<and> pk N \<notin> pk ` set (messages w)
     \<and> role N = ''assistant'' \<and> content N = s \<and> parent_user_message N = Some mid
     \<and> conversation N = cid \<and> \<not> superseded N
     \<and> R\<lparr>superseded := True, replaced_by := Some (pk N)\<rparr> \<in> set (messages w')
     \<and> (\<forall>x\<in>set (messages w'). pk x = pk R \<longrightarrow> superseded x \<and> replaced_by x = Some (pk N))
     \<and> filter (\<lambda>x. role x = ''assistant'' \<and> parent_user_message x = Some mid)
           (get_active_messages w' cid) = [N]
     \<and> N \<in> set (get_active_messages w' cid)
     \<and> R \<notin> set (get_active_messages w' cid)
     \<and> (\<forall>x\<in>set (get_active_messages w' cid). \<not> superseded x)"
proof -
  have cpk: "conversation_pk conv = cid"
    using filter_singletonD(2)[OF conv] by simp
  have mpk: "pk m = mid"
    using filter_singletonD(2)[OF um] by simp
  define N where "N = \<lparr>pk = fresh_pk (messages w), conversation = conversation_pk conv, role = ''assistant'',
                 content = s, created_at = clock w (ticks w), edited = False, edited_at = None,
                 previous_content = [], superseded = False, replaced_by = None,
                 parent_user_message = Some (pk m)\<rparr>"
  define R' where "R' = R\<lparr>superseded := True, replaced_by := Some (pk N)\<rparr>"
  define rows where "rows = map (\<lambda>x. if pk x = pk R then R' else x) (messages w)"
  define w' where "w' = w\<lparr>ticks := Suc (ticks w), messages := rows @ [N]\<rparr>"
  have R0: "filter (\<lambda>x. parent_user_message x = Some (pk m) \<and> role x = ''assistant'' \<and> \<not> superseded x)
              (messages w) = [R]"
    unfolding mpk by (rule R)
  have atomic: "regenerate_reply_atomic create complete w conv m = Inr (JsonResponse_regenerate N, w')"
    unfolding w'_def rows_def
    by (rule regenerate_reply_atomic_success[OF R0 gen s N_def R'_def])
  have view: "regenerate_reply st create complete w u cid (Json (Some mid)) = (JsonResponse_regenerate N, w')"
    unfolding regenerate_reply_def conv get_object_or_404_single
    using mid key by (simp add: cpk um get_object_or_404_single atomic)
  have Rmem: "R \<in> set (messages w)"
    by (rule filter_singletonD(1)[OF R])
  have Ronly: "\<forall>x\<in>set (messages w). (parent_user_message x = Some mid \<and> role x = ''assistant'' \<and> \<not> superseded x)
                  \<longrightarrow> x = R"
    by (rule filter_singletonD(3)[OF R])
  have Nfields: "role N = ''assistant'' \<and> content N = s \<and> parent_user_message N = Some mid
     \<and> conversation N = cid \<and> \<not> superseded N"
    by (simp add: N_def cpk mpk)
  have Nfresh: "pk N \<notin> pk ` set (messages w)"
  proof
    assume "pk N \<in> pk ` set (messages w)"
    then obtain x where x: "x \<in> set (messages w)" "pk x = pk N" by auto
    from fresh_pk_fresh[OF x(1)] x(2) show False by (simp add: N_def)
  qed
  have msgs: "messages w' = rows @ [N]"
    by (simp add: w'_def)
  have Nmem: "N \<in> set (messages w')"
    by (simp add: msgs)
  have R'sup: "superseded R' \<and> replaced_by R' = Some (pk N) \<and> pk R' = pk R"
    by (simp add: R'_def)
  have R'mem: "R' \<in> set (messages w')"
  proof -
    have "(if pk R = pk R then R' else R) \<in> set rows"
      unfolding rows_def using Rmem by (simp only: set_map) (rule imageI)
    then show ?thesis by (simp add: msgs)
  qed
  have NR: "pk N \<noteq> pk R"
    using Nfresh Rmem by blast
  have same_pk: "\<forall>x\<in>set (messages w'). pk x = pk R \<longrightarrow> superseded x \<and> replaced_by x = Some (pk N)"
  proof (intro ballI impI)
    fix x assume x: "x \<in> set (messages w')" and p: "pk x = pk R"
    from x p NR have "x \<in> set rows" by (auto simp: msgs)
    then obtain y where y: "y \<in> set (messages w)" "x = (if pk y = pk R then R' else y)"
      by (auto simp: rows_def)
    from y(2) p R'sup have "x = R'" by (cases "pk y = pk R") simp_all
    with R'sup show "superseded x \<and> replaced_by x = Some (pk N)" by simp
  qed
  have none: "filter (\<lambda>x. (role x = ''assistant'' \<and> parent_user_message x = Some mid)
                         \<and> (conversation x = cid \<and> \<not> superseded x)) rows = []"
    unfolding rows_def
  proof (rule superseded_rows_inactive[OF Ronly])
    show "\<not> ((role R' = ''assistant'' \<and> parent_user_message R' = Some mid)
               \<and> (conversation R' = cid \<and> \<not> superseded R'))"
      using R'sup by simp
  next
    fix x assume "(role x = ''assistant'' \<and> parent_user_message x = Some mid)
                    \<and> (conversation x = cid \<and> \<not> superseded x)"
    then show "parent_user_message x = Some mid \<and> role x = ''assistant'' \<and> \<not> superseded x"
      by simp
  qed
  have "filter (\<lambda>x. role x = ''assistant'' \<and> parent_user_message x = Some mid) (get_active_messages w' cid)
        = sort_key created_at (filter (\<lambda>x. (role x = ''assistant'' \<and> parent_user_message x = Some mid)
                         \<and> (conversation x = cid \<and> \<not> superseded x)) (messages w'))"
    by (simp add: get_active_messages_def order_by_created_at_def filter_sort conj_commute)
  also have "\<dots> = sort_key created_at [N]"
    unfolding msgs filter_append none using Nfields by simp
  finally have one: "filter (\<lambda>x. role x = ''assistant'' \<and> parent_user_message x = Some mid)
                       (get_active_messages w' cid) = [N]"
    by simp
  have active: "set (get_active_messages w' cid) = {x \<in> set (messages w'). conversation x = cid \<and> \<not> superseded x}"
    by (auto simp: get_active_messages_def order_by_created_at_def)
  have Nactive: "N \<in> set (get_active_messages w' cid)"
    using Nmem Nfields by (simp add: active)
  have Rinactive: "R \<notin> set (get_active_messages w' cid)"
  proof
    assume "R \<in> set (get_active_messages w' cid)"
    then have "R \<in> set (messages w')" and "\<not> superseded R" by (simp_all add: active)
    with same_pk show False by blast
  qed
  have all_active: "\<forall>x\<in>set (get_active_messages w' cid). \<not> superseded x"
    by (simp add: active)
  have R'mem2: "R\<lparr>superseded := True, replaced_by := Some (pk N)\<rparr> \<in> set (messages w')"
    using R'mem by (simp only: R'_def)
  have "regenerate_reply st create complete w u cid (Json (Some mid)) = (JsonResponse_regenerate N, w')
     \<and> N \<in> set (messages w') \<and> pk N \<notin> pk ` set (messages w)
     \<and> role N = ''assistant'' \<and> content N = s \<and> parent_user_message N = Some mid
     \<and> conversation N = cid \<and> \<not> superseded N
     \<and> R\<lparr>superseded := True, replaced_by := Some (pk N)\<rparr> \<in> set (messages w')
     \<and> (\<forall>x\<in>set (messages w'). pk x = pk R \<longrightarrow> superseded x \<and> replaced_by x = Some (pk N))
     \<and> filter (\<lambda>x. role x = ''assistant'' \<and> parent_user_message x = Some mid)
           (get_active_messages w' cid) = [N]
     \<and> N \<in> set (get_active_messages w' cid)
     \<and> R \<notin> set (get_active_messages w' cid)
     \<and> (\<forall>x\<in>set (get_active_messages w' cid). \<not> superseded x)"
    by (intro conjI view Nmem Nfresh R'mem2 same_pk one Nactive Rinactive all_active)
       (simp_all add: Nfields)
  then show ?thesis
    by (intro exI[of _ N] exI[of _ w'])
qed

text \<open>
  Witness for C1: regenerating the reply to the user message of the example state.
\<close>

theorem regenerate_reply_supersedes_witness:
  "filter (\<lambda>c. conversation_pk c = 1 \<and> user c = 1) (conversations world1) = [conversation1]
   \<and> filter (\<lambda>x. pk x = 1 \<and> conversation x = 1 \<and> role x = ''user'') (messages world1) = [hello]
   \<and> filter (\<lambda>x. parent_user_message x = Some 1 \<and> role x = ''assistant'' \<and> \<not> superseded x)
        (messages world1) = [hi_there]
   \<and> OPENAI_API_KEY configured \<noteq> []
   \<and> generate_chat_completion never_flags answers_hi
        (map to_openai_format (get_conversation_history_for_api world1 hello)) = Inr (Some ''Hi there!'')
   \<and> (case regenerate_reply configured never_flags answers_hi world1 1 1 (Json (Some 1)) of
        (resp, w') \<Rightarrow>
          resp = JsonResponse_regenerate new_reply
        \<and> messages w' = [hello, hi_there\<lparr>superseded := True, replaced_by := Some 4\<rparr>,
                          updated_response, new_reply]
        \<and> get_active_messages w' 1 = [hello, new_reply])"
  using regenerate_reply_supersedes [where w = world1 and cid = 1 and u = 1 and conv = conversation1
      and mid = 1 and m = hello and st = configured and R = hi_there and create = never_flags
      and complete = answers_hi and s = "''Hi there!''"]
  by (simp add: regenerate_reply_def regenerate_reply_atomic_def get_conversation_history_for_api_def
      supersede_with_new_reply_def Message_save_def get_object_or_404_def generate_chat_completion_def check_moderation_def index0_def api_call_def
      get_active_messages_def order_by_created_at_def first_def to_openai_format_def
      Message_objects_create_def save_row_def timezone_now_def fresh_pk_def Let_def example_defs configured_def never_flags_def answers_hi_def new_reply_def)

section \<open>Moderation fails open\<close>

lemma generate_moderation_down:
  assumes down: "\<forall>k t. \<exists>e. create k t = Inl e"
  shows "generate_chat_completion create complete msgs =
           (case api_call complete msgs of
              Inr v \<Rightarrow> Inr v
            | Inl e \<Rightarrow> Inr (Some (except_clauses e)))"
  using moderation_loop_all_fail[OF down, of 0 msgs]
  by (simp add: generate_chat_completion_def)

lemma send_message_moderation_down:
  assumes down: "\<forall>k t. \<exists>e. create k t = Inl e"
    and answer: "\<forall>h. complete h = Inr [Some s]"
    and s: "s \<noteq> []"
    and cv: "filter (\<lambda>x. conversation_pk x = cid \<and> user x = u) (conversations w) = [cv]"
    and c: "strip c \<noteq> []"
    and key: "OPENAI_API_KEY st \<noteq> []"
  shows "\<exists>um am w'. send_message st create complete w u cid (Json (Some c)) = (JsonResponse_send um am, w')
           \<and> role um = ''user'' \<and> content um = strip c
           \<and> role am = ''assistant'' \<and> content am = s \<and> parent_user_message am = Some (pk um)
           \<and> messages w' = messages w @ [um, am]"
proof -
  have gen: "generate_chat_completion create complete msgs = Inr (Some s)" for msgs
    using answer by (simp add: generate_moderation_down[OF down] api_call_def index0_def)
  obtain um w1 where 1: "Message_objects_create w (conversation_pk cv) ''user'' (strip c) None = (um, w1)"
    by (cases "Message_objects_create w (conversation_pk cv) ''user'' (strip c) None")
  obtain cv' w2 where 2: "update_title_from_first_message w1 cv = (cv', w2)"
    by (cases "update_title_from_first_message w1 cv")
  obtain am w3 where 3: "Message_objects_create w2 (conversation_pk cv') ''assistant'' s (Some (pk um)) = (am, w3)"
    by (cases "Message_objects_create w2 (conversation_pk cv') ''assistant'' s (Some (pk um))")
  have atomic: "send_message_atomic st create complete w cv (strip c) = Inr (JsonResponse_send um am, w3)"
    using s by (simp add: send_message_atomic_def 1 2 3 gen)
  have view: "send_message st create complete w u cid (Json (Some c)) = (JsonResponse_send um am, w3)"
    unfolding send_message_def cv get_object_or_404_single
    using c key by (simp add: atomic)
  have um: "role um = ''user'' \<and> content um = strip c"
    using 1 by (auto simp: Message_objects_create_eq)
  have am: "role am = ''assistant'' \<and> content am = s \<and> parent_user_message am = Some (pk um)"
    using 3 by (auto simp: Message_objects_create_eq)
  have m1: "messages w1 = messages w @ [um]"
    using 1 by (auto simp: Message_objects_create_eq)
  have m2: "messages w2 = messages w1"
    using update_title_messages[of w1 cv] by (simp add: 2)
  have m3: "messages w3 = messages w2 @ [am]"
    using 3 by (auto simp: Message_objects_create_eq)
  have stored: "messages w3 = messages w @ [um, am]"
    by (simp add: m1 m2 m3)
  show ?thesis
    using view um am stored by blast
qed

text \<open>
  Claim C9.  For every text, when the moderation collaborator raises, \<open>check_moderation\<close>
  returns \<open>flagged = False\<close> (with no categories); it returns on every input and never
  raises.  When every moderation call raises, \<open>generate_chat_completion\<close> rejects nothing
  and goes on to the completion call: its result is the outcome of that call, the content on
  success and the mapped text on failure.  In the \<open>send_message\<close> handler, with a
  completion backend that answers a non-empty content \<open>s\<close>, the user's message is not
  rejected: it is stored, and so is the assistant message that answers it with content \<open>s\<close>.
\<close>

theorem check_moderation_fails_open:
  "(create n input = Inl e \<longrightarrow>
      check_moderation create n input = Inr \<lparr>flagged = False, categories = []\<rparr>)
   \<and> (\<exists>v. check_moderation create n input = Inr v)
   \<and> ((\<forall>k t. \<exists>e. create k t = Inl e) \<longrightarrow>
        moderation_loop create 0 msgs = Inr None
        \<and> generate_chat_completion create complete msgs =
            (case api_call complete msgs of
               Inr v \<Rightarrow> Inr v
             | Inl e \<Rightarrow> Inr (Some (except_clauses e))))
   \<and> ((\<forall>k t. \<exists>e. create k t = Inl e) \<and> (\<forall>h. complete h = Inr [Some s]) \<and> s \<noteq> []
        \<and> filter (\<lambda>x. conversation_pk x = cid \<and> user x = u) (conversations w) = [cv]
        \<and> strip c \<noteq> [] \<and> OPENAI_API_KEY st \<noteq> [] \<longrightarrow>
        (\<exists>um am w'. send_message st create complete w u cid (Json (Some c)) = (JsonResponse_send um am, w')
           \<and> role um = ''user'' \<and> content um = strip c
           \<and> role am = ''assistant'' \<and> content am = s \<and> parent_user_message am = Some (pk um)
           \<and> messages w' = messages w @ [um, am]))"
proof (intro conjI impI)
  assume "create n input = Inl e"
  then show "check_moderation create n input = Inr \<lparr>flagged = False, categories = []\<rparr>"
    by (rule check_moderation_failure)
next
  show "\<exists>v. check_moderation create n input = Inr v"
    by (rule check_moderation_returns)
next
  assume "\<forall>k t. \<exists>e. create k t = Inl e"
  then show "moderation_loop create 0 msgs = Inr None"
    by (rule moderation_loop_all_fail)
next
  assume "\<forall>k t. \<exists>e. create k t = Inl e"
  then show "generate_chat_completion create complete msgs =
            (case api_call complete msgs of
               Inr v \<Rightarrow> Inr v
             | Inl e \<Rightarrow> Inr (Some (except_clauses e)))"
    by (rule generate_moderation_down)
next
  assume a: "(\<forall>k t. \<exists>e. create k t = Inl e) \<and> (\<forall>h. complete h = Inr [Some s]) \<and> s \<noteq> []
        \<and> filter (\<lambda>x. conversation_pk x = cid \<and> user x = u) (conversations w) = [cv]
        \<and> strip c \<noteq> [] \<and> OPENAI_API_KEY st \<noteq> []"
  show "\<exists>um am w'. send_message st create complete w u cid (Json (Some c)) = (JsonResponse_send um am, w')
           \<and> role um = ''user'' \<and> content um = strip c
           \<and> role am = ''assistant'' \<and> content am = s \<and> parent_user_message am = Some (pk um)
           \<and> messages w' = messages w @ [um, am]"
    by (rule send_message_moderation_down) (use a in simp_all)
qed

text \<open>
  Witness for C9: a moderation collaborator that raises on every call, in the gateway and in
  a \<open>send_message\<close> request on the empty conversation of the example state.
\<close>

theorem check_moderation_fails_open_witness:
  "moderation_down 0 ''Hello'' = Inl OtherException
   \<and> check_moderation moderation_down 0 ''Hello'' = Inr \<lparr>flagged = False, categories = []\<rparr>
   \<and> (\<forall>k t. \<exists>e. moderation_down k t = Inl e)
   \<and> generate_chat_completion moderation_down answers_hi [(''user'', ''Hello'')] = Inr (Some ''Hi there!'')
   \<and> (\<forall>h. answers_hi h = Inr [Some ''Hi there!''])
   \<and> filter (\<lambda>x. conversation_pk x = 2 \<and> user x = 1) (conversations world1) = [conversation2]
   \<and> strip '' Hello '' \<noteq> [] \<and> OPENAI_API_KEY configured \<noteq> []
   \<and> fst (send_message configured moderation_down answers_hi world1 1 2 (Json (Some '' Hello '')))
       = JsonResponse_send hello_sent hi_sent
   \<and> messages (snd (send_message configured moderation_down answers_hi world1 1 2 (Json (Some '' Hello ''))))
       = [hello, hi_there, updated_response, hello_sent, hi_sent]"
  using check_moderation_fails_open [where create = moderation_down and n = 0 and input = "''Hello''"
      and e = OtherException and msgs = "[(''user'', ''Hello'')]" and complete = answers_hi
      and s = "''Hi there!''" and cid = 2 and u = 1 and w = world1 and cv = conversation2
      and c = "'' Hello ''" and st = configured]
  by (simp add: send_message_def send_message_atomic_def get_recent_messages_for_api_def
      strip_def isspace_def update_title_from_first_message_def Conversation_save_def
      get_object_or_404_def generate_chat_completion_def check_moderation_def index0_def api_call_def
      get_active_messages_def order_by_created_at_def first_def to_openai_format_def
      Message_objects_create_def save_row_def timezone_now_def fresh_pk_def Let_def example_defs configured_def moderation_down_def answers_hi_def
      hello_sent_def hi_sent_def)

section \<open>Appending a message\<close>

lemma send_message_atomic_cases:
  assumes a: "send_message_atomic st create complete w conv c = Inr (JsonResponse_send um am, w')"
  shows "role um = ''user'' \<and> content um = c \<and> \<not> edited um \<and> \<not> superseded um
     \<and> conversation um = conversation_pk conv
     \<and> role am = ''assistant'' \<and> content am \<noteq> [] \<and> \<not> edited am \<and> \<not> superseded am
     \<and> conversation am = conversation_pk conv \<and> parent_user_message am = Some (pk um)
     \<and> messages w' = messages w @ [um, am]"
proof -
  obtain um0 w1 where 1: "Message_objects_create w (conversation_pk conv) ''user'' c None = (um0, w1)"
    by (cases "Message_objects_create w (conversation_pk conv) ''user'' c None")
  obtain cv' w2 where 2: "update_title_from_first_message w1 conv = (cv', w2)"
    by (cases "update_title_from_first_message w1 conv")
  have k: "conversation_pk cv' = conversation_pk conv"
    using update_title_pk[of w1 conv] by (simp add: 2)
  have m2: "messages w2 = messages w1"
    using update_title_messages[of w1 conv] by (simp add: 2)
  define g where "g = generate_chat_completion create complete
    (map to_openai_format (get_recent_messages_for_api w2 (conversation_pk cv') (MESSAGE_HISTORY_LIMIT st)))"
  have unfold: "send_message_atomic st create complete w conv c =
      (case g of
         Inl e \<Rightarrow> Inl (e, w2)
       | Inr None \<Rightarrow> Inr (JsonResponse_error 500 ''Failed to generate AI response'', w2)
       | Inr (Some ai_response) \<Rightarrow>
           if ai_response \<noteq> [] then
             (let (assistant_message, w3) =
                    Message_objects_create w2 (conversation_pk cv') ''assistant'' ai_response (Some (pk um0))
              in Inr (JsonResponse_send um0 assistant_message, w3))
           else Inr (JsonResponse_error 500 ''Failed to generate AI response'', w2))"
    by (simp add: send_message_atomic_def 1 2 g_def)
  from a unfold obtain ai where g: "g = Inr (Some ai)" and ne: "ai \<noteq> []"
    by (cases g) (auto split: option.splits if_splits)
  obtain am0 w3 where 3: "Message_objects_create w2 (conversation_pk cv') ''assistant'' ai (Some (pk um0)) = (am0, w3)"
    by (cases "Message_objects_create w2 (conversation_pk cv') ''assistant'' ai (Some (pk um0))")
  from a unfold g ne 3 have eq: "um = um0" "am = am0" "w' = w3"
    by simp_all
  have um: "role um0 = ''user'' \<and> content um0 = c \<and> \<not> edited um0 \<and> \<not> superseded um0
     \<and> conversation um0 = conversation_pk conv \<and> messages w1 = messages w @ [um0]"
    using 1 by (auto simp: Message_objects_create_eq)
  have am: "role am0 = ''assistant'' \<and> content am0 = ai \<and> \<not> edited am0 \<and> \<not> superseded am0
     \<and> conversation am0 = conversation_pk cv' \<and> parent_user_message am0 = Some (pk um0)
     \<and> messages w3 = messages w2 @ [am0]"
    using 3 by (auto simp: Message_objects_create_eq)
  show ?thesis
    using um am ne k m2 by (simp add: eq)
qed

text \<open>
  Claim C6, amended.  \<open>Message.objects.create\<close> validates nothing: for every role and every
  content, in an existing conversation (and with an existing parent message, if one is given),
  it succeeds and appends, under a fresh key, a message with that role and content and with
  \<open>edited = False\<close> and \<open>superseded = False\<close>.  The check for empty content is made by the
  \<open>send_message\<close> handler: a request whose content is empty after \<open>strip()\<close> is answered
  with the error 400 and the state is left as it was.  A successful \<open>send_message\<close> has
  appended to the messages exactly two rows of the conversation: a user message holding the
  stripped, non-empty content and an assistant message with a non-empty content that answers
  it, both with \<open>edited = False\<close> and \<open>superseded = False\<close>.
\<close>

theorem Message_objects_create_does_not_validate:
  "(conv \<in> set (map conversation_pk (conversations w))
        \<and> set_option parent \<subseteq> set (map pk (messages w))
      \<longrightarrow> (case Message_objects_create w conv r c parent of (m, w') \<Rightarrow>
            role m = r \<and> content m = c \<and> conversation m = conv \<and> parent_user_message m = parent
          \<and> \<not> edited m \<and> \<not> superseded m
          \<and> messages w' = messages w @ [m] \<and> pk m \<notin> pk ` set (messages w)))
   \<and> (filter (\<lambda>x. conversation_pk x = cid \<and> user x = u) (conversations w) = [cv]
        \<and> strip (case field of None \<Rightarrow> [] | Some s \<Rightarrow> s) = []
      \<longrightarrow> send_message st create complete w u cid (Json field)
            = (JsonResponse_error 400 ''Message content cannot be empty'', w))
   \<and> (send_message st create complete w u cid (Json field) = (JsonResponse_send um am, w')
      \<longrightarrow> role um = ''user'' \<and> content um = strip (case field of None \<Rightarrow> [] | Some s \<Rightarrow> s)
          \<and> content um \<noteq> [] \<and> \<not> edited um \<and> \<not> superseded um \<and> conversation um = cid
          \<and> role am = ''assistant'' \<and> content am \<noteq> [] \<and> \<not> edited am \<and> \<not> superseded am
          \<and> conversation am = cid \<and> parent_user_message am = Some (pk um)
          \<and> messages w' = messages w @ [um, am]
          \<and> um \<in> set (messages w') \<and> am \<in> set (messages w'))"
proof -
  have fresh: "fresh_pk (messages w) \<notin> pk ` set (messages w)"
  proof
    assume "fresh_pk (messages w) \<in> pk ` set (messages w)"
    then obtain x where x: "x \<in> set (messages w)" "pk x = fresh_pk (messages w)" by auto
    from fresh_pk_fresh[OF x(1)] x(2) show False by simp
  qed
  have create: "(case Message_objects_create w conv r c parent of (m, w') \<Rightarrow>
      role m = r \<and> content m = c \<and> conversation m = conv \<and> parent_user_message m = parent
    \<and> \<not> edited m \<and> \<not> superseded m
    \<and> messages w' = messages w @ [m] \<and> pk m \<notin> pk ` set (messages w))"
    using fresh by (simp add: Message_objects_create_eq)
  have empty: "send_message st create complete w u cid (Json field)
            = (JsonResponse_error 400 ''Message content cannot be empty'', w)"
    if "filter (\<lambda>x. conversation_pk x = cid \<and> user x = u) (conversations w) = [cv]"
      and "strip (case field of None \<Rightarrow> [] | Some s \<Rightarrow> s) = []"
    unfolding send_message_def that(1) get_object_or_404_single
    using that(2) by (simp add: Let_def)
  have sent: "role um = ''user'' \<and> content um = strip (case field of None \<Rightarrow> [] | Some s \<Rightarrow> s)
          \<and> content um \<noteq> [] \<and> \<not> edited um \<and> \<not> superseded um \<and> conversation um = cid
          \<and> role am = ''assistant'' \<and> content am \<noteq> [] \<and> \<not> edited am \<and> \<not> superseded am
          \<and> conversation am = cid \<and> parent_user_message am = Some (pk um)
          \<and> messages w' = messages w @ [um, am]
          \<and> um \<in> set (messages w') \<and> am \<in> set (messages w')"
    if s: "send_message st create complete w u cid (Json field) = (JsonResponse_send um am, w')"
  proof -
    let ?c = "strip (case field of None \<Rightarrow> [] | Some s \<Rightarrow> s)"
    let ?found = "filter (\<lambda>x. conversation_pk x = cid \<and> user x = u) (conversations w)"
    from s have "\<exists>cv'. get_object_or_404 ?found = Inr cv'
                   \<and> send_message_atomic st create complete w cv' ?c = Inr (JsonResponse_send um am, w')
                   \<and> ?c \<noteq> []"
      unfolding send_message_def Let_def
      by (auto split: sum.splits if_splits prod.splits)
    then obtain cv' where f: "get_object_or_404 ?found = Inr cv'"
      and a: "send_message_atomic st create complete w cv' ?c = Inr (JsonResponse_send um am, w')"
      and ne: "?c \<noteq> []"
      by blast
    from f have "?found = [cv']"
      by (auto simp: get_object_or_404_def split: list.splits)
    then have k: "conversation_pk cv' = cid"
      using filter_singletonD(2)[of "\<lambda>x. conversation_pk x = cid \<and> user x = u" "conversations w" cv']
      by simp
    from send_message_atomic_cases[OF a] ne k show ?thesis
      by simp
  qed
  show ?thesis
  proof (intro conjI impI)
    show "case Message_objects_create w conv r c parent of (m, w') \<Rightarrow>
            role m = r \<and> content m = c \<and> conversation m = conv \<and> parent_user_message m = parent
          \<and> \<not> edited m \<and> \<not> superseded m
          \<and> messages w' = messages w @ [m] \<and> pk m \<notin> pk ` set (messages w)"
      by (rule create)
  next
    assume "filter (\<lambda>x. conversation_pk x = cid \<and> user x = u) (conversations w) = [cv]
        \<and> strip (case field of None \<Rightarrow> [] | Some s \<Rightarrow> s) = []"
    then show "send_message st create complete w u cid (Json field)
            = (JsonResponse_error 400 ''Message content cannot be empty'', w)"
      using empty by blast
  qed (use sent in blast)+
qed

text \<open>
  Witness for C6: two blank messages (spaces; a no-break space and a next-line character) and
  a proper message sent in the example state, and a system message created in it.
\<close>

theorem Message_objects_create_does_not_validate_witness:
  "filter (\<lambda>x. conversation_pk x = 1 \<and> user x = 1) (conversations world1) = [conversation1]
   \<and> strip (case Some ''  '' of None \<Rightarrow> [] | Some s \<Rightarrow> s) = []
   \<and> send_message configured never_flags answers_hi world1 1 1 (Json (Some ''  ''))
       = (JsonResponse_error 400 ''Message content cannot be empty'', world1)
   \<and> strip (case Some [CHR 0xA0, CHR 0x85] of None \<Rightarrow> [] | Some s \<Rightarrow> s) = []
   \<and> send_message configured never_flags answers_hi world1 1 1 (Json (Some [CHR 0xA0, CHR 0x85]))
       = (JsonResponse_error 400 ''Message content cannot be empty'', world1)
   \<and> fst (send_message configured never_flags answers_hi world1 1 2 (Json (Some '' Hello '')))
       = JsonResponse_send hello_sent hi_sent
   \<and> messages (snd (send_message configured never_flags answers_hi world1 1 2 (Json (Some '' Hello ''))))
       = [hello, hi_there, updated_response, hello_sent, hi_sent]
   \<and> 2 \<in> set (map conversation_pk (conversations world1))
   \<and> set_option (Some 1) \<subseteq> set (map pk (messages world1))
   \<and> role (fst (Message_objects_create world1 2 ''system'' ''Be brief.'' (Some 1))) = ''system''
   \<and> \<not> superseded (fst (Message_objects_create world1 2 ''system'' ''Be brief.'' (Some 1)))"
proof -
  have found: "filter (\<lambda>x. conversation_pk x = 1 \<and> user x = 1) (conversations world1) = [conversation1]"
    by (simp add: example_defs)
  have blank1: "strip (case Some ''  '' of None \<Rightarrow> [] | Some s \<Rightarrow> s) = []"
    by (simp add: strip_def isspace_def)
  have blank2: "strip (case Some [CHR 0xA0, CHR 0x85] of None \<Rightarrow> [] | Some s \<Rightarrow> s) = []"
    by (simp add: strip_def isspace_def)
  have refused1: "send_message configured never_flags answers_hi world1 1 1 (Json (Some ''  ''))
       = (JsonResponse_error 400 ''Message content cannot be empty'', world1)"
    using Message_objects_create_does_not_validate [where w = world1 and cid = 1 and u = 1
      and cv = conversation1 and field = "Some ''  ''" and st = configured and create = never_flags
      and complete = answers_hi] found blank1
    by blast
  have refused2: "send_message configured never_flags answers_hi world1 1 1 (Json (Some [CHR 0xA0, CHR 0x85]))
       = (JsonResponse_error 400 ''Message content cannot be empty'', world1)"
    using Message_objects_create_does_not_validate [where w = world1 and cid = 1 and u = 1
      and cv = conversation1 and field = "Some [CHR 0xA0, CHR 0x85]" and st = configured
      and create = never_flags and complete = answers_hi] found blank2
    by blast
  have answered: "fst (send_message configured never_flags answers_hi world1 1 2 (Json (Some '' Hello '')))
       = JsonResponse_send hello_sent hi_sent"
    by (simp add: send_message_def send_message_atomic_def get_recent_messages_for_api_def
      strip_def isspace_def update_title_from_first_message_def Conversation_save_def
      get_object_or_404_def generate_chat_completion_def check_moderation_def index0_def api_call_def
      get_active_messages_def order_by_created_at_def first_def to_openai_format_def
      Message_objects_create_def save_row_def timezone_now_def fresh_pk_def Let_def example_defs
      configured_def never_flags_def answers_hi_def hello_sent_def hi_sent_def)
  then have "send_message configured never_flags answers_hi world1 1 2 (Json (Some '' Hello ''))
       = (JsonResponse_send hello_sent hi_sent,
          snd (send_message configured never_flags answers_hi world1 1 2 (Json (Some '' Hello ''))))"
    by (metis prod.collapse)
  then have "messages (snd (send_message configured never_flags answers_hi world1 1 2 (Json (Some '' Hello ''))))
       = messages world1 @ [hello_sent, hi_sent]"
    using Message_objects_create_does_not_validate [where w = world1 and cid = 2 and u = 1
      and field = "Some '' Hello ''" and st = configured and create = never_flags
      and complete = answers_hi and um = hello_sent and am = hi_sent
      and w' = "snd (send_message configured never_flags answers_hi world1 1 2 (Json (Some '' Hello '')))"]
    by blast
  then have stored: "messages (snd (send_message configured never_flags answers_hi world1 1 2 (Json (Some '' Hello ''))))
       = [hello, hi_there, updated_response, hello_sent, hi_sent]"
    by (simp add: world1_def)
  have conv: "2 \<in> set (map conversation_pk (conversations world1))"
    by (simp add: example_defs)
  have parent: "set_option (Some 1) \<subseteq> set (map pk (messages world1))"
    by (simp add: example_defs)
  have "case Message_objects_create world1 2 ''system'' ''Be brief.'' (Some 1) of (m, w') \<Rightarrow>
            role m = ''system'' \<and> content m = ''Be brief.'' \<and> conversation m = 2
          \<and> parent_user_message m = Some 1 \<and> \<not> edited m \<and> \<not> superseded m
          \<and> messages w' = messages world1 @ [m] \<and> pk m \<notin> pk ` set (messages world1)"
    using Message_objects_create_does_not_validate [where w = world1 and conv = 2 and parent = "Some 1"
      and r = "''system''" and c = "''Be brief.''", THEN conjunct1] conv parent
    by (simp only: simp_thms)
  then have created: "role (fst (Message_objects_create world1 2 ''system'' ''Be brief.'' (Some 1))) = ''system''
      \<and> \<not> superseded (fst (Message_objects_create world1 2 ''system'' ''Be brief.'' (Some 1)))"
    by (simp add: case_prod_unfold)
  show ?thesis
    using found blank1 refused1 blank2 refused2 answered stored conv parent created
    by (intro conjI) simp_all
qed

text \<open>
  Counterexample to C6 as stated: in an existing conversation, with a role outside
  \<open>ROLE_CHOICES\<close> and a content that is empty after \<open>strip()\<close>,
  \<open>Message.objects.create\<close> raises nothing and stores the message.
\<close>

theorem Message_objects_create_counterexample:
  "''robot'' \<notin> set ROLE_CHOICES
   \<and> strip ''  '' = []
   \<and> 1 \<in> set (map conversation_pk (conversations world1))
   \<and> fst (Message_objects_create world1 1 ''robot'' ''  '' None)
       = \<lparr>pk = 4, conversation = 1, role = ''robot'', content = ''  '', created_at = 100,
          edited = False, edited_at = None, previous_content = [], superseded = False,
          replaced_by = None, parent_user_message = None\<rparr>
   \<and> messages (snd (Message_objects_create world1 1 ''robot'' ''  '' None))
       = [hello, hi_there, updated_response,
          \<lparr>pk = 4, conversation = 1, role = ''robot'', content = ''  '', created_at = 100,
           edited = False, edited_at = None, previous_content = [], superseded = False,
           replaced_by = None, parent_user_message = None\<rparr>]"
  by (simp add: ROLE_CHOICES_def strip_def isspace_def Message_objects_create_def timezone_now_def fresh_pk_def Let_def example_defs)

end
